theory Spec2Isabelle
  imports Complex_Main
begin

section \<open>Values, records and the store\<close>

text \<open>
  The persistence layer (\<^verbatim>\<open>db.js\<close>, schema version 2) keeps three IndexedDB object
  stores: \<^verbatim>\<open>transactions\<close> and \<^verbatim>\<open>budgets\<close> (key path \<^verbatim>\<open>id\<close>, auto-increment) and
  \<^verbatim>\<open>settings\<close> (key path \<^verbatim>\<open>key\<close>). JavaScript is untyped, so the fields that the code
  copies without looking at them are JavaScript values; numbers are modelled as
  rationals (\<^verbatim>\<open>NaN\<close> and the infinities are left out).
\<close>

datatype jsval = JUndefined | JNull | JBool bool | JNum rat | JStr string

text \<open>JavaScript truthiness, as used by \<^verbatim>\<open>if (x)\<close>, \<^verbatim>\<open>!x\<close> and \<^verbatim>\<open>x || y\<close>.\<close>

fun truthy :: "jsval \<Rightarrow> bool" where
  "truthy JUndefined = False"
| "truthy JNull = False"
| "truthy (JBool b) = b"
| "truthy (JNum n) = (n \<noteq> 0)"
| "truthy (JStr s) = (s \<noteq> [])"

text \<open>\<^verbatim>\<open>a || b\<close>\<close>

definition js_or :: "jsval \<Rightarrow> jsval \<Rightarrow> jsval" where
  "js_or a b = (if truthy a then a else b)"

record budget =
  b_id :: int
  b_name :: jsval
  b_target :: jsval
  b_created :: int

text \<open>A stored transaction; a legacy (version 1) record has no \<^verbatim>\<open>budgetId\<close> property,
  which reads as \<^verbatim>\<open>undefined\<close>.\<close>

record txn =
  t_id :: int
  t_amount :: jsval
  t_category :: jsval
  t_note :: jsval
  t_budgetId :: jsval
  t_timestamp :: int

datatype error =
    RequestError      \<comment> \<open>\<^verbatim>\<open>request.error\<close> of a failed IndexedDB request\<close>
  | ConstraintError   \<comment> \<open>\<^verbatim>\<open>add\<close> on a key that is already present\<close>
  | DataError         \<comment> \<open>thrown by \<^verbatim>\<open>IDBKeyRange.bound\<close> on an invalid range\<close>
  | Error string      \<comment> \<open>\<^verbatim>\<open>new Error(message)\<close>\<close>

text \<open>
  The world: the three object stores with the key generators of the two auto-increment
  stores (records are kept in key order), the module variable \<^verbatim>\<open>dbInstance\<close>, the number
  of connections opened so far, the clock read by \<^verbatim>\<open>Date.now()\<close>, the offset of
  local time from UTC (in milliseconds, as a function of the local time), and a fault plan:
  \<open>fail_in = Some n\<close> makes the request after the next \<open>n\<close> ones fail (once),
  \<open>fail_in = None\<close> is an engine that does not fail.
\<close>

record world =
  settings :: "string \<rightharpoonup> jsval"
  budgets :: "budget list"
  budgets_key :: int
  transactions :: "txn list"
  transactions_key :: int
  dbInstance :: bool
  opened :: nat
  clock :: int
  localTZA :: "int \<Rightarrow> int"
  fail_in :: "nat option"

section \<open>Promises\<close>

text \<open>A promise-returning function is a state transformer that settles with a value
  (\<open>Inr\<close>, resolved) or an error (\<open>Inl\<close>, rejected).\<close>

type_synonym 'a promise = "world \<Rightarrow> (error + 'a) \<times> world"

definition resolve :: "'a \<Rightarrow> 'a promise" where
  "resolve x w = (Inr x, w)"

definition reject :: "error \<Rightarrow> 'a promise" where
  "reject e w = (Inl e, w)"

text \<open>\<^verbatim>\<open>const x = await m; k(x)\<close>: a rejection of \<open>m\<close> is thrown, which rejects the caller.\<close>

definition await :: "'a promise \<Rightarrow> ('a \<Rightarrow> 'b promise) \<Rightarrow> 'b promise" where
  "await m k w = (case m w of (Inl e, w') \<Rightarrow> (Inl e, w') | (Inr x, w') \<Rightarrow> k x w')"

text \<open>One IndexedDB request: \<^verbatim>\<open>onsuccess\<close> fires unless the fault plan makes it fail,
  in which case \<^verbatim>\<open>onerror\<close> fires and the promise is rejected with \<^verbatim>\<open>request.error\<close>.\<close>

definition request :: "unit promise" where
  "request w = (case fail_in w of
       None \<Rightarrow> (Inr (), w)
     | Some 0 \<Rightarrow> (Inl RequestError, w\<lparr>fail_in := None\<rparr>)
     | Some (Suc n) \<Rightarrow> (Inr (), w\<lparr>fail_in := Some n\<rparr>))"

section \<open>Internal helpers\<close>

text \<open>\<^verbatim>\<open>store.get(key)\<close> on \<^verbatim>\<open>settings\<close> yields the record \<^verbatim>\<open>{key, value}\<close> or
  \<^verbatim>\<open>undefined\<close>; a record is an object and so truthy:
  \<^verbatim>\<open>resolve(request.result ? request.result.value : null)\<close>.\<close>

definition getSettingInternal :: "string \<Rightarrow> jsval promise" where
  "getSettingInternal key =
     await request (\<lambda>_ w.
       resolve (case settings w key of Some v \<Rightarrow> v | None \<Rightarrow> JNull) w)"

definition setSettingInternal :: "string \<Rightarrow> jsval \<Rightarrow> unit promise" where
  "setSettingInternal key v =
     await request (\<lambda>_ w. resolve () (w\<lparr>settings := (settings w)(key \<mapsto> v)\<rparr>))"

text \<open>\<^verbatim>\<open>store.add(record)\<close> on an auto-increment store: the key generator supplies the
  key and advances; \<^verbatim>\<open>add\<close> fails when the key is already present.\<close>

definition createBudgetInternal :: "jsval \<Rightarrow> jsval \<Rightarrow> int promise" where
  "createBudgetInternal nm tgt =
     await request (\<lambda>_ w.
       let k = budgets_key w in
       if k \<in> b_id ` set (budgets w) then reject ConstraintError w
       else resolve k
         (w\<lparr>budgets := insort_key b_id
               \<lparr>b_id = k, b_name = nm, b_target = tgt, b_created = clock w\<rparr> (budgets w),
            budgets_key := k + 1\<rparr>))"

definition getAllBudgetsInternal :: "budget list promise" where
  "getAllBudgetsInternal = await request (\<lambda>_ w. resolve (budgets w) w)"

text \<open>The cursor of \<^verbatim>\<open>migrateTransactionsToBudget\<close> walks the store in key order. Each
  \<^verbatim>\<open>onsuccess\<close> is a request event; \<^verbatim>\<open>cursor.update(record)\<close> is a request of its own that
  replaces the record under the cursor. \<open>seen\<close> are the records behind the cursor.\<close>

definition cursor_update :: "txn list \<Rightarrow> unit promise" where
  "cursor_update recs = await request (\<lambda>_ w. resolve () (w\<lparr>transactions := recs\<rparr>))"

fun migrateCursor :: "jsval \<Rightarrow> txn list \<Rightarrow> txn list \<Rightarrow> unit promise" where
  "migrateCursor budgetId seen [] = await request (\<lambda>_. resolve ())"
| "migrateCursor budgetId seen (record # rest) =
     await request (\<lambda>_.
       if \<not> truthy (t_budgetId record)
       then await (cursor_update (seen @ record\<lparr>t_budgetId := budgetId\<rparr> # rest))
              (\<lambda>_. migrateCursor budgetId (seen @ [record\<lparr>t_budgetId := budgetId\<rparr>]) rest)
       else migrateCursor budgetId (seen @ [record]) rest)"

text \<open>A failed request aborts the \<^verbatim>\<open>readwrite\<close> transaction, which undoes its writes.\<close>

definition migrateTransactionsToBudget :: "jsval \<Rightarrow> unit promise" where
  "migrateTransactionsToBudget budgetId w =
     (case migrateCursor budgetId [] (transactions w) w of
        (Inl e, w') \<Rightarrow> (Inl e, w'\<lparr>transactions := transactions w\<rparr>)
      | (Inr u, w') \<Rightarrow> (Inr u, w'))"

section \<open>The migration\<close>

definition runMigrationIfNeeded :: "unit promise" where
  "runMigrationIfNeeded =
     await (getSettingInternal ''migrationV2Done'') (\<lambda>migrationDone.
       if truthy migrationDone then resolve ()
       else
         await getAllBudgetsInternal (\<lambda>bs.
           if length bs > 0 then setSettingInternal ''migrationV2Done'' (JBool True)
           else
             await (getSettingInternal ''monthlyTarget'') (\<lambda>t.
               let oldTarget = js_or t (JNum 1000) in
               await (createBudgetInternal (JStr ''Personal Budget'') oldTarget)
                 (\<lambda>defaultBudgetId.
                   await (migrateTransactionsToBudget (JNum (of_int defaultBudgetId))) (\<lambda>_.
                     await (setSettingInternal ''currentBudgetId''
                              (JNum (of_int defaultBudgetId))) (\<lambda>_.
                       setSettingInternal ''migrationV2Done'' (JBool True)))))))"

text \<open>What the cursor loop does to one record.\<close>

definition assignBudget :: "jsval \<Rightarrow> txn \<Rightarrow> txn" where
  "assignBudget budgetId record =
     (if \<not> truthy (t_budgetId record) then record\<lparr>t_budgetId := budgetId\<rparr> else record)"

text \<open>The completion flag as \<^verbatim>\<open>if (migrationDone)\<close> reads it, and the legacy target as
  \<^verbatim>\<open>getSettingInternal(db, 'monthlyTarget') || 1000\<close> reads it.\<close>

definition migrationDone :: "world \<Rightarrow> bool" where
  "migrationDone w =
     (case settings w ''migrationV2Done'' of Some v \<Rightarrow> truthy v | None \<Rightarrow> False)"

definition legacyTarget :: "world \<Rightarrow> jsval" where
  "legacyTarget w =
     (case settings w ''monthlyTarget'' of
        Some v \<Rightarrow> if truthy v then v else JNum 1000
      | None \<Rightarrow> JNum 1000)"

text \<open>Every transaction's \<^verbatim>\<open>budgetId\<close> is the id of a budget in the budgets store.\<close>

definition budgetRefsValid :: "world \<Rightarrow> bool" where
  "budgetRefsValid w =
     list_all (\<lambda>t. list_ex (\<lambda>b. t_budgetId t = JNum (of_int (b_id b))) (budgets w))
       (transactions w)"

section \<open>Opening the database\<close>

text \<open>
  \<^verbatim>\<open>initDB\<close> as one caller at a time sees it: the memoized handle if there is one,
  otherwise \<^verbatim>\<open>indexedDB.open\<close>, whose \<^verbatim>\<open>onsuccess\<close> sets \<^verbatim>\<open>dbInstance\<close>; then, on every
  call, \<^verbatim>\<open>runMigrationIfNeeded\<close>. The schema upgrade only creates the object stores and
  indexes, which the world has from the start. The handle is the world itself.
\<close>

definition indexedDB_open :: "unit promise" where
  "indexedDB_open =
     await request (\<lambda>_ w. resolve () (w\<lparr>dbInstance := True, opened := Suc (opened w)\<rparr>))"

definition initDB :: "unit promise" where
  "initDB =
     await (\<lambda>w. if dbInstance w then resolve () w else indexedDB_open w)
       (\<lambda>db. await runMigrationIfNeeded (\<lambda>_. resolve db))"

section \<open>Settings, budgets and transactions\<close>

definition getSetting :: "string \<Rightarrow> jsval promise" where
  "getSetting key = await initDB (\<lambda>db. getSettingInternal key)"

definition setSetting :: "string \<Rightarrow> jsval \<Rightarrow> unit promise" where
  "setSetting key v = await initDB (\<lambda>db. setSettingInternal key v)"

text \<open>The \<^verbatim>\<open>updates\<close> argument of \<^verbatim>\<open>updateBudget\<close>; an absent property is \<^verbatim>\<open>undefined\<close>.\<close>

record budget_updates =
  u_name :: jsval
  u_target :: jsval

text \<open>\<^verbatim>\<open>store.get(id)\<close> yields the record with that key or \<^verbatim>\<open>undefined\<close>;
  \<^verbatim>\<open>store.put(record)\<close> of a record read under the same transaction replaces it.\<close>

definition updateBudget :: "int \<Rightarrow> budget_updates \<Rightarrow> unit promise" where
  "updateBudget ident updates =
     await initDB (\<lambda>db.
       await request (\<lambda>_ w.
         case find (\<lambda>b. b_id b = ident) (budgets w) of
           Some record \<Rightarrow>
             let r1 = (if u_name updates \<noteq> JUndefined
                       then record\<lparr>b_name := u_name updates\<rparr> else record);
                 r2 = (if u_target updates \<noteq> JUndefined
                       then r1\<lparr>b_target := u_target updates\<rparr> else r1)
             in await request (\<lambda>_ w'.
                  resolve ()
                    (w'\<lparr>budgets := map (\<lambda>b. if b_id b = ident then r2 else b) (budgets w')\<rparr>)) w
         | None \<Rightarrow> reject (Error ''Budget not found'') w))"

text \<open>The argument of \<^verbatim>\<open>addTransaction\<close>; an omitted \<^verbatim>\<open>note\<close> is \<^verbatim>\<open>undefined\<close>.\<close>

record txn_input =
  in_amount :: jsval
  in_category :: jsval
  in_note :: jsval
  in_budgetId :: jsval

definition addTransaction :: "txn_input \<Rightarrow> int promise" where
  "addTransaction transaction =
     await initDB (\<lambda>db w0.
       let amount = in_amount transaction;
           category = in_category transaction;
           note = js_or (in_note transaction) (JStr []);
           budgetId = in_budgetId transaction;
           timestamp = clock w0
       in await request (\<lambda>_ w.
            let k = transactions_key w in
            if k \<in> t_id ` set (transactions w) then reject ConstraintError w
            else resolve k
              (w\<lparr>transactions := insort_key t_id
                    \<lparr>t_id = k, t_amount = amount, t_category = category, t_note = note,
                     t_budgetId = budgetId, t_timestamp = timestamp\<rparr> (transactions w),
                 transactions_key := k + 1\<rparr>)) w0)"

text \<open>\<^verbatim>\<open>store.delete(id)\<close> succeeds whether or not a record has that key.\<close>

definition deleteTransaction :: "int \<Rightarrow> unit promise" where
  "deleteTransaction ident =
     await initDB (\<lambda>db.
       await request (\<lambda>_ w.
         resolve () (w\<lparr>transactions := filter (\<lambda>r. t_id r \<noteq> ident) (transactions w)\<rparr>)))"

definition updateTransactionNote :: "int \<Rightarrow> jsval \<Rightarrow> unit promise" where
  "updateTransactionNote ident note =
     await initDB (\<lambda>db.
       await request (\<lambda>_ w.
         case find (\<lambda>r. t_id r = ident) (transactions w) of
           Some record \<Rightarrow>
             await request (\<lambda>_ w'.
               resolve ()
                 (w'\<lparr>transactions :=
                      map (\<lambda>r. if t_id r = ident then record\<lparr>t_note := note\<rparr> else r)
                        (transactions w')\<rparr>)) w
         | None \<Rightarrow> reject (Error ''Transaction not found'') w))"

text \<open>Reading a transaction back by its key (\<^verbatim>\<open>store.get(id)\<close>).\<close>

definition transactionById :: "int \<Rightarrow> world \<Rightarrow> txn option" where
  "transactionById ident w = find (\<lambda>r. t_id r = ident) (transactions w)"

section \<open>Dates\<close>

text \<open>
  The time value of \<^verbatim>\<open>new Date(year, month, date, hours, minutes, seconds, ms)\<close> for
  integer arguments, after ECMAScript: years 0 to 99 stand for 1900 to 1999, the fields
  are taken as local time, and a time value beyond 8.64e15 ms makes an invalid date,
  whose \<^verbatim>\<open>getTime()\<close> is \<^verbatim>\<open>NaN\<close> (here \<open>None\<close>).
\<close>

definition msPerDay :: int where
  "msPerDay = 86400000"

definition DaysInYear :: "int \<Rightarrow> int" where
  "DaysInYear y =
     (if y mod 4 \<noteq> 0 then 365 else if y mod 100 \<noteq> 0 then 366
      else if y mod 400 \<noteq> 0 then 365 else 366)"

definition InLeapYear :: "int \<Rightarrow> int" where
  "InLeapYear y = (if DaysInYear y = 365 then 0 else 1)"

definition DayFromYear :: "int \<Rightarrow> int" where
  "DayFromYear y =
     365 * (y - 1970) + (y - 1969) div 4 - (y - 1901) div 100 + (y - 1601) div 400"

text \<open>The day within the year on which month \<open>mn\<close> (0 to 11) starts, from the table of
  \<^verbatim>\<open>MonthFromTime\<close>.\<close>

definition monthStart :: "int \<Rightarrow> int \<Rightarrow> int" where
  "monthStart y mn =
     (let L = InLeapYear y in
      [0, 31, 59 + L, 90 + L, 120 + L, 151 + L, 181 + L, 212 + L, 243 + L, 273 + L,
       304 + L, 334 + L] ! nat mn)"

definition MakeDay :: "int \<Rightarrow> int \<Rightarrow> int \<Rightarrow> int" where
  "MakeDay year month date =
     (let ym = year + month div 12; mn = month mod 12
      in DayFromYear ym + monthStart ym mn + date - 1)"

definition MakeTime :: "int \<Rightarrow> int \<Rightarrow> int \<Rightarrow> int \<Rightarrow> int" where
  "MakeTime hour minute sec ms = hour * 3600000 + minute * 60000 + sec * 1000 + ms"

definition MakeDate :: "int \<Rightarrow> int \<Rightarrow> int" where
  "MakeDate day time = day * msPerDay + time"

definition UTC :: "(int \<Rightarrow> int) \<Rightarrow> int \<Rightarrow> int" where
  "UTC tza t = t - tza t"

definition TimeClip :: "int \<Rightarrow> int option" where
  "TimeClip t = (if \<bar>t\<bar> > 8640000000000000 then None else Some t)"

definition newDate ::
  "(int \<Rightarrow> int) \<Rightarrow> int \<Rightarrow> int \<Rightarrow> int \<Rightarrow> int \<Rightarrow> int \<Rightarrow> int \<Rightarrow> int \<Rightarrow> int option" where
  "newDate tza year month date hours minutes seconds ms =
     (let yr = (if 0 \<le> year \<and> year \<le> 99 then 1900 + year else year);
          finalDate = MakeDate (MakeDay yr month date) (MakeTime hours minutes seconds ms)
      in TimeClip (UTC tza finalDate))"

section \<open>Queries over the timestamp index\<close>

text \<open>\<^verbatim>\<open>IDBKeyRange.bound(lower, upper)\<close> throws a \<^verbatim>\<open>DataError\<close> when a bound is not a
  valid key (\<^verbatim>\<open>NaN\<close>) or when the lower bound is greater than the upper one; thrown in
  the promise executor, it rejects the promise.\<close>

definition IDBKeyRange_bound :: "int option \<Rightarrow> int option \<Rightarrow> error + int \<times> int" where
  "IDBKeyRange_bound lower upper =
     (case (lower, upper) of
        (Some l, Some u) \<Rightarrow> if l > u then Inl DataError else Inr (l, u)
      | _ \<Rightarrow> Inl DataError)"

text \<open>The records a cursor over the \<^verbatim>\<open>timestamp\<close> index visits for an inclusive range,
  in index order: by timestamp, records of equal timestamp by primary key.\<close>

definition index_openCursor :: "int \<times> int \<Rightarrow> txn list \<Rightarrow> txn list" where
  "index_openCursor rng recs =
     sort_key t_timestamp
       (filter (\<lambda>r. fst rng \<le> t_timestamp r \<and> t_timestamp r \<le> snd rng) recs)"

text \<open>\<^verbatim>\<open>a === b\<close> on the values modelled here.\<close>

definition strict_equals :: "jsval \<Rightarrow> jsval \<Rightarrow> bool" where
  "strict_equals a b = (a = b)"

text \<open>The collecting loop shared by \<^verbatim>\<open>getTransactionsByMonth\<close> and
  \<^verbatim>\<open>getTransactionsByDateRange\<close>; each \<^verbatim>\<open>onsuccess\<close> is a request event.\<close>

fun collectCursor :: "jsval \<Rightarrow> txn list \<Rightarrow> txn list \<Rightarrow> txn list promise" where
  "collectCursor budgetId [] results = await request (\<lambda>_. resolve results)"
| "collectCursor budgetId (v # rest) results =
     await request (\<lambda>_.
       if strict_equals (t_budgetId v) budgetId
       then collectCursor budgetId rest (results @ [v])
       else collectCursor budgetId rest results)"

definition getTransactionsByMonth :: "int \<Rightarrow> int \<Rightarrow> jsval \<Rightarrow> txn list promise" where
  "getTransactionsByMonth year month budgetId =
     await initDB (\<lambda>db w.
       let startOfMonth = newDate (localTZA w) year month 1 0 0 0 0;
           endOfMonth = newDate (localTZA w) year (month + 1) 0 23 59 59 999
       in case IDBKeyRange_bound startOfMonth endOfMonth of
            Inl e \<Rightarrow> reject e w
          | Inr rng \<Rightarrow>
              collectCursor budgetId (index_openCursor rng (transactions w)) [] w)"

text \<open>A \<^verbatim>\<open>Date\<close> argument is given by its \<^verbatim>\<open>getTime()\<close>: \<open>None\<close> for an invalid date.\<close>

definition getTransactionsByDateRange ::
  "int option \<Rightarrow> int option \<Rightarrow> jsval \<Rightarrow> txn list promise" where
  "getTransactionsByDateRange startDate endDate budgetId =
     await initDB (\<lambda>db w.
       case IDBKeyRange_bound startDate endDate of
         Inl e \<Rightarrow> reject e w
       | Inr rng \<Rightarrow>
           collectCursor budgetId (index_openCursor rng (transactions w)) [] w)"

text \<open>\<^verbatim>\<open>cursor.delete()\<close> is a request that removes the record under the cursor.\<close>

definition cursor_delete :: "txn \<Rightarrow> unit promise" where
  "cursor_delete v =
     await request (\<lambda>_ w.
       resolve () (w\<lparr>transactions := filter (\<lambda>r. t_id r \<noteq> t_id v) (transactions w)\<rparr>))"

fun deleteCursor :: "jsval \<Rightarrow> txn list \<Rightarrow> nat \<Rightarrow> nat promise" where
  "deleteCursor budgetId [] count = await request (\<lambda>_. resolve count)"
| "deleteCursor budgetId (v # rest) count =
     await request (\<lambda>_.
       if strict_equals (t_budgetId v) budgetId
       then await (cursor_delete v) (\<lambda>_. deleteCursor budgetId rest (count + 1))
       else deleteCursor budgetId rest count)"

definition deleteTransactionsByDateRange ::
  "int option \<Rightarrow> int option \<Rightarrow> jsval \<Rightarrow> nat promise" where
  "deleteTransactionsByDateRange startDate endDate budgetId =
     await initDB (\<lambda>db w.
       case IDBKeyRange_bound startDate endDate of
         Inl e \<Rightarrow> reject e w
       | Inr rng \<Rightarrow>
           (case deleteCursor budgetId (index_openCursor rng (transactions w)) 0 w of
              (Inl e, w') \<Rightarrow> (Inl e, w'\<lparr>transactions := transactions w\<rparr>)
            | (Inr n, w') \<Rightarrow> (Inr n, w')))"

text \<open>The transactions of a store that lie within the bounds of a range query.\<close>

definition recordsInBounds :: "int \<Rightarrow> int \<Rightarrow> jsval \<Rightarrow> world \<Rightarrow> txn list" where
  "recordsInBounds lower upper budgetId w =
     filter (\<lambda>r. lower \<le> t_timestamp r \<and> t_timestamp r \<le> upper \<and> t_budgetId r = budgetId)
       (transactions w)"

section \<open>Calendar months\<close>

text \<open>
  The month a caller means by \<open>(year, month)\<close>, from the Gregorian calendar: leap years,
  the lengths of the months (0 is January), the day number (days since 1 January 1970)
  of the first of a month, and the first and the last millisecond of the month in local
  time, as time values. \<open>dateYear\<close> is the year that the \<^verbatim>\<open>Date\<close> constructor takes a
  year argument to mean.
\<close>

definition leapYear :: "int \<Rightarrow> bool" where
  "leapYear y = (y mod 4 = 0 \<and> (y mod 100 \<noteq> 0 \<or> y mod 400 = 0))"

definition daysInMonth :: "int \<Rightarrow> int \<Rightarrow> int" where
  "daysInMonth y m =
     (if m = 1 then (if leapYear y then 29 else 28)
      else if m = 3 \<or> m = 5 \<or> m = 8 \<or> m = 10 then 30 else 31)"

fun daysBeforeMonth :: "int \<Rightarrow> nat \<Rightarrow> int" where
  "daysBeforeMonth y 0 = 0"
| "daysBeforeMonth y (Suc m) = daysBeforeMonth y m + daysInMonth y (int m)"

definition firstDayOfMonth :: "int \<Rightarrow> int \<Rightarrow> int" where
  "firstDayOfMonth y m = DayFromYear y + daysBeforeMonth y (nat m)"

definition monthFirstInstant :: "(int \<Rightarrow> int) \<Rightarrow> int \<Rightarrow> int \<Rightarrow> int" where
  "monthFirstInstant tza y m = UTC tza (firstDayOfMonth y m * msPerDay)"

definition monthLastInstant :: "(int \<Rightarrow> int) \<Rightarrow> int \<Rightarrow> int \<Rightarrow> int" where
  "monthLastInstant tza y m =
     UTC tza ((firstDayOfMonth y m + daysInMonth y m) * msPerDay - 1)"

definition dateYear :: "int \<Rightarrow> int" where
  "dateYear year = (if 0 \<le> year \<and> year \<le> 99 then 1900 + year else year)"

definition maxTimeValue :: int where
  "maxTimeValue = 8640000000000000"

section \<open>Callers of \<^verbatim>\<open>initDB\<close> that overlap\<close>

text \<open>
  The opening part of \<^verbatim>\<open>initDB\<close> as a machine driven by events, for callers that do not
  wait for each other. A call runs the promise executor at once: with \<^verbatim>\<open>dbInstance\<close> set
  the caller receives it; otherwise \<^verbatim>\<open>indexedDB.open\<close> issues a new request, number
  \<open>k\<close>, which stays in flight. When request \<open>k\<close> succeeds, its \<^verbatim>\<open>onsuccess\<close> stores the
  connection it opened (connection \<open>k\<close>) in \<^verbatim>\<open>dbInstance\<close> and passes it to its caller;
  when it fails, its caller is rejected and nothing is stored.
\<close>

record opener =
  o_dbInstance :: "nat option"
  o_requests :: nat
  o_inFlight :: "nat list"
  o_connections :: "nat list"
  o_received :: "nat list"

datatype event = Call | OpenSuccess nat | OpenError nat

fun step :: "event \<Rightarrow> opener \<Rightarrow> opener" where
  "step Call s =
     (case o_dbInstance s of
        Some h \<Rightarrow> s\<lparr>o_received := o_received s @ [h]\<rparr>
      | None \<Rightarrow> s\<lparr>o_requests := Suc (o_requests s),
                   o_inFlight := o_inFlight s @ [o_requests s]\<rparr>)"
| "step (OpenSuccess k) s =
     (if k \<in> set (o_inFlight s)
      then s\<lparr>o_dbInstance := Some k,
             o_inFlight := removeAll k (o_inFlight s),
             o_connections := o_connections s @ [k],
             o_received := o_received s @ [k]\<rparr>
      else s)"
| "step (OpenError k) s = s\<lparr>o_inFlight := removeAll k (o_inFlight s)\<rparr>"

definition runEvents :: "event list \<Rightarrow> opener \<Rightarrow> opener" where
  "runEvents evs s = fold step evs s"

definition unopened :: opener where
  "unopened = \<lparr>o_dbInstance = None, o_requests = 0, o_inFlight = [], o_connections = [],
             o_received = []\<rparr>"

text \<open>No call is made while an open request is in flight.\<close>

fun sequential :: "event list \<Rightarrow> opener \<Rightarrow> bool" where
  "sequential [] s = True"
| "sequential (e # evs) s =
     ((e \<noteq> Call \<or> o_inFlight s = []) \<and> sequential evs (step e s))"

definition openerInv :: "opener \<Rightarrow> bool" where
  "openerInv s =
     (length (o_inFlight s) \<le> 1 \<and>
      (case o_dbInstance s of
         None \<Rightarrow> o_connections s = [] \<and> o_received s = []
       | Some h \<Rightarrow> o_connections s = [h] \<and> set (o_received s) \<subseteq> {h} \<and> o_inFlight s = []))"

section \<open>Properties of promises\<close>

text \<open>A promise is quiet when it leaves settings and budgets as they were and rejects
  only with the error of a failed request, after which the fault plan is spent. It passes
  faults on when it cannot resolve over a request that failed: if a fault was planned
  and the promise resolved, the fault is still to come.\<close>

definition quiet :: "'a promise \<Rightarrow> bool" where
  "quiet m = (\<forall>w r w'. m w = (r, w') \<longrightarrow>
       settings w' = settings w \<and> budgets w' = budgets w \<and>
       (\<forall>e. r = Inl e \<longrightarrow> e = RequestError \<and> fail_in w' = None))"

definition passes :: "'a promise \<Rightarrow> bool" where
  "passes m = (\<forall>w x w'. m w = (Inr x, w') \<longrightarrow> fail_in w \<noteq> None \<longrightarrow> fail_in w' \<noteq> None)"

section \<open>Sample stores and inputs\<close>

text \<open>A version 1 store after the schema upgrade: a legacy target and three transactions
  without \<^verbatim>\<open>budgetId\<close>; the same store after a run that stopped between creating the
  default budget and back-filling the transactions; and a store on which the migration
  has run.\<close>

definition legacyTxn :: "int \<Rightarrow> rat \<Rightarrow> int \<Rightarrow> txn" where
  "legacyTxn k amt ts =
     \<lparr>t_id = k, t_amount = JNum amt, t_category = JStr ''Food'', t_note = JStr [],
      t_budgetId = JUndefined, t_timestamp = ts\<rparr>"

definition legacyStore :: world where
  "legacyStore =
     \<lparr>settings = [''monthlyTarget'' \<mapsto> JNum 1500],
      budgets = [],
      budgets_key = 1,
      transactions = [legacyTxn 1 12 1700000000000, legacyTxn 2 30 1700000500000,
                      legacyTxn 3 7 1700001000000],
      transactions_key = 4,
      dbInstance = False,
      opened = 0,
      clock = 1700002000000,
      localTZA = (\<lambda>_. 3600000),
      fail_in = None\<rparr>"

definition crashedStore :: world where
  "crashedStore =
     legacyStore
       \<lparr>budgets := [\<lparr>b_id = 1, b_name = JStr ''Personal Budget'', b_target = JNum 1500,
                     b_created = 1700001500000\<rparr>],
        budgets_key := 2\<rparr>"

definition migratedStore :: world where
  "migratedStore =
     \<lparr>settings = [''currentBudgetId'' \<mapsto> JNum 1, ''migrationV2Done'' \<mapsto> JBool True,
                  ''onboarded'' \<mapsto> JBool False,
                  ''theme'' \<mapsto> JStr [], ''streak'' \<mapsto> JNum 0],
      budgets = [\<lparr>b_id = 1, b_name = JStr ''Personal Budget'', b_target = JNum 1000,
                   b_created = 1700000000000\<rparr>,
                 \<lparr>b_id = 2, b_name = JStr ''Holiday'', b_target = JNum 600,
                   b_created = 1700000200000\<rparr>],
      budgets_key = 3,
      transactions =
        [\<lparr>t_id = 1, t_amount = JNum 12, t_category = JStr ''Food'', t_note = JStr ''lunch'',
          t_budgetId = JNum 1, t_timestamp = 1700000000000\<rparr>,
         \<lparr>t_id = 2, t_amount = JNum 40, t_category = JStr ''Fuel'', t_note = JStr [],
          t_budgetId = JNum 1, t_timestamp = 1700000600000\<rparr>,
         \<lparr>t_id = 4, t_amount = JNum 5, t_category = JStr ''Food'', t_note = JStr [],
          t_budgetId = JNum 2, t_timestamp = 1700000300000\<rparr>],
      transactions_key = 5,
      dbInstance = True,
      opened = 1,
      clock = 1700002000000,
      localTZA = (\<lambda>_. 3600000),
      fail_in = None\<rparr>"

text \<open>A store with one transaction of January 1999.\<close>

definition oldStore :: world where
  "oldStore =
     migratedStore
       \<lparr>transactions :=
          [\<lparr>t_id = 1, t_amount = JNum 12, t_category = JStr ''Food'', t_note = JStr [],
            t_budgetId = JNum 1, t_timestamp = 915200000000\<rparr>]\<rparr>"

text \<open>A transaction input that omits the note.\<close>

definition notelessInput :: txn_input where
  "notelessInput =
     \<lparr>in_amount = JNum 12, in_category = JStr ''Food'', in_note = JUndefined,
      in_budgetId = JNum 1\<rparr>"

definition renameUpdates :: budget_updates where
  "renameUpdates = \<lparr>u_name = JStr ''Household'', u_target = JUndefined\<rparr>"

section \<open>Requests that succeed\<close>

lemma request_ok: "fail_in w = None \<Longrightarrow> request w = (Inr (), w)"
  by (simp add: request_def)

lemma getSettingInternal_ok:
  "fail_in w = None \<Longrightarrow>
   getSettingInternal key w = (Inr (case settings w key of Some v \<Rightarrow> v | None \<Rightarrow> JNull), w)"
  by (simp add: getSettingInternal_def await_def request_ok resolve_def)

lemma setSettingInternal_ok:
  "fail_in w = None \<Longrightarrow>
   setSettingInternal key v w = (Inr (), w\<lparr>settings := (settings w)(key \<mapsto> v)\<rparr>)"
  by (simp add: setSettingInternal_def await_def request_ok resolve_def)

lemma getAllBudgetsInternal_ok:
  "fail_in w = None \<Longrightarrow> getAllBudgetsInternal w = (Inr (budgets w), w)"
  by (simp add: getAllBudgetsInternal_def await_def request_ok resolve_def)

lemma createBudgetInternal_ok:
  "fail_in w = None \<Longrightarrow> budgets_key w \<notin> b_id ` set (budgets w) \<Longrightarrow>
   createBudgetInternal nm tgt w =
     (Inr (budgets_key w),
      w\<lparr>budgets := insort_key b_id
           \<lparr>b_id = budgets_key w, b_name = nm, b_target = tgt, b_created = clock w\<rparr>
           (budgets w),
        budgets_key := budgets_key w + 1\<rparr>)"
  by (simp add: createBudgetInternal_def await_def request_ok resolve_def Let_def)

lemma migrateCursor_ok:
  "fail_in w = None \<Longrightarrow> transactions w = seen @ rest \<Longrightarrow>
   migrateCursor b seen rest w =
     (Inr (), w\<lparr>transactions := seen @ map (assignBudget b) rest\<rparr>)"
proof (induction rest arbitrary: seen w)
  case Nil
  then show ?case by (simp add: await_def request_ok resolve_def)
next
  case (Cons r rest)
  show ?case
  proof (cases "truthy (t_budgetId r)")
    case True
    with Cons.prems Cons.IH [of w "seen @ [r]"] show ?thesis
      by (simp add: await_def request_ok assignBudget_def)
  next
    case False
    let ?r = "r\<lparr>t_budgetId := b\<rparr>"
    let ?w = "w\<lparr>transactions := seen @ ?r # rest\<rparr>"
    have "migrateCursor b (seen @ [?r]) rest ?w =
       (Inr (), ?w\<lparr>transactions := (seen @ [?r]) @ map (assignBudget b) rest\<rparr>)"
      by (rule Cons.IH) (use Cons.prems in simp_all)
    with False Cons.prems show ?thesis
      by (simp add: await_def request_ok assignBudget_def cursor_update_def resolve_def)
  qed
qed

lemma migrateTransactionsToBudget_ok:
  "fail_in w = None \<Longrightarrow>
   migrateTransactionsToBudget b w =
     (Inr (), w\<lparr>transactions := map (assignBudget b) (transactions w)\<rparr>)"
  using migrateCursor_ok [of w "[]" "transactions w" b]
  by (simp add: migrateTransactionsToBudget_def)

section \<open>The three paths of the migration\<close>

lemma run_done:
  "fail_in w = None \<Longrightarrow> migrationDone w \<Longrightarrow> runMigrationIfNeeded w = (Inr (), w)"
  by (auto simp add: runMigrationIfNeeded_def migrationDone_def await_def
        getSettingInternal_ok resolve_def split: option.splits)

lemma run_budgets:
  "fail_in w = None \<Longrightarrow> \<not> migrationDone w \<Longrightarrow> budgets w \<noteq> [] \<Longrightarrow>
   runMigrationIfNeeded w =
     (Inr (), w\<lparr>settings := (settings w)(''migrationV2Done'' \<mapsto> JBool True)\<rparr>)"
  by (auto simp add: runMigrationIfNeeded_def migrationDone_def await_def
        getSettingInternal_ok resolve_def getAllBudgetsInternal_ok setSettingInternal_ok
      split: option.splits)

lemma run_full:
  "fail_in w = None \<Longrightarrow> \<not> migrationDone w \<Longrightarrow> budgets w = [] \<Longrightarrow>
   runMigrationIfNeeded w =
     (Inr (),
      w\<lparr>budgets := [\<lparr>b_id = budgets_key w, b_name = JStr ''Personal Budget'',
                      b_target = legacyTarget w, b_created = clock w\<rparr>],
        budgets_key := budgets_key w + 1,
        transactions := map (assignBudget (JNum (of_int (budgets_key w)))) (transactions w),
        settings := (settings w)(''currentBudgetId'' \<mapsto> JNum (of_int (budgets_key w)),
                                 ''migrationV2Done'' \<mapsto> JBool True)\<rparr>)"
  by (auto simp add: runMigrationIfNeeded_def migrationDone_def await_def
        getSettingInternal_ok resolve_def getAllBudgetsInternal_ok setSettingInternal_ok
        createBudgetInternal_ok legacyTarget_def js_or_def migrateTransactionsToBudget_ok
      split: option.splits)

lemma run_resolves:
  assumes "fail_in w = None"
  shows "fst (runMigrationIfNeeded w) = Inr ()"
    and "fail_in (snd (runMigrationIfNeeded w)) = None"
    and "migrationDone (snd (runMigrationIfNeeded w))"
    and "dbInstance (snd (runMigrationIfNeeded w)) = dbInstance w"
proof -
  consider "migrationDone w" | "\<not> migrationDone w" "budgets w \<noteq> []"
    | "\<not> migrationDone w" "budgets w = []"
    by blast
  then have "fst (runMigrationIfNeeded w) = Inr () \<and>
      fail_in (snd (runMigrationIfNeeded w)) = None \<and>
      migrationDone (snd (runMigrationIfNeeded w)) \<and>
      dbInstance (snd (runMigrationIfNeeded w)) = dbInstance w"
  proof cases
    case 1
    with assms show ?thesis by (simp add: run_done)
  next
    case 2
    with assms show ?thesis by (simp add: run_budgets migrationDone_def)
  next
    case 3
    with assms show ?thesis by (simp add: run_full migrationDone_def)
  qed
  then show "fst (runMigrationIfNeeded w) = Inr ()"
    and "fail_in (snd (runMigrationIfNeeded w)) = None"
    and "migrationDone (snd (runMigrationIfNeeded w))"
    and "dbInstance (snd (runMigrationIfNeeded w)) = dbInstance w"
    by simp_all
qed

text \<open>
  \<^bold>\<open>Claim C1.\<close> On a store whose \<^verbatim>\<open>migrationV2Done\<close> setting is unset and that has no
  budgets, a run of the migration (with no request failing) resolves; it leaves exactly
  one budget, named "Personal Budget", whose target is the legacy \<^verbatim>\<open>monthlyTarget\<close>
  setting, or 1000 when that is absent or falsy; every transaction whose \<^verbatim>\<open>budgetId\<close> is
  missing carries the new budget's id afterwards and the other transactions are as they
  were; \<^verbatim>\<open>currentBudgetId\<close> is the new id and \<^verbatim>\<open>migrationV2Done\<close> is \<^verbatim>\<open>true\<close>.
\<close>

theorem migration_creates_default_budget:
  assumes "fail_in w = None"
    and "settings w ''migrationV2Done'' = None"
    and "budgets w = []"
  shows "let w' = snd (runMigrationIfNeeded w); newId = budgets_key w in
     fst (runMigrationIfNeeded w) = Inr () \<and>
     budgets w' = [\<lparr>b_id = newId, b_name = JStr ''Personal Budget'',
                    b_target = (case settings w ''monthlyTarget'' of
                                  Some v \<Rightarrow> if truthy v then v else JNum 1000
                                | None \<Rightarrow> JNum 1000),
                    b_created = clock w\<rparr>] \<and>
     transactions w' =
       map (\<lambda>t. if truthy (t_budgetId t) then t else t\<lparr>t_budgetId := JNum (of_int newId)\<rparr>)
         (transactions w) \<and>
     settings w' = (settings w)(''currentBudgetId'' \<mapsto> JNum (of_int newId),
                                ''migrationV2Done'' \<mapsto> JBool True)"
proof -
  from assms(2) have "\<not> migrationDone w"
    by (simp add: migrationDone_def)
  moreover have "assignBudget b = (\<lambda>t. if truthy (t_budgetId t) then t else t\<lparr>t_budgetId := b\<rparr>)"
    for b by (rule ext) (simp add: assignBudget_def)
  ultimately show ?thesis
    using assms(1,3) by (simp add: run_full legacyTarget_def)
qed

theorem migration_creates_default_budget_witness:
  "fail_in legacyStore = None \<and> settings legacyStore ''migrationV2Done'' = None \<and>
   budgets legacyStore = [] \<and>
   fst (runMigrationIfNeeded legacyStore) = Inr () \<and>
   map b_name (budgets (snd (runMigrationIfNeeded legacyStore))) = [JStr ''Personal Budget''] \<and>
   map b_target (budgets (snd (runMigrationIfNeeded legacyStore))) = [JNum 1500] \<and>
   map b_id (budgets (snd (runMigrationIfNeeded legacyStore))) = [1] \<and>
   map t_budgetId (transactions (snd (runMigrationIfNeeded legacyStore))) =
     [JNum 1, JNum 1, JNum 1] \<and>
   settings (snd (runMigrationIfNeeded legacyStore)) ''currentBudgetId'' = Some (JNum 1) \<and>
   settings (snd (runMigrationIfNeeded legacyStore)) ''migrationV2Done'' = Some (JBool True)"
  using migration_creates_default_budget [of legacyStore]
  by (simp add: legacyStore_def legacyTxn_def Let_def)

text \<open>
  \<^bold>\<open>Claim C2.\<close> From every store, a run of the migration resolves and a second run
  right after it changes nothing at all: no budget is added and no transaction's
  \<^verbatim>\<open>budgetId\<close> changes. On a store whose \<^verbatim>\<open>migrationV2Done\<close> setting is truthy a run
  leaves budgets, transactions and settings as they were (no request failing).
\<close>

theorem migration_idempotent:
  assumes "fail_in w = None"
  shows "let w1 = snd (runMigrationIfNeeded w) in
     fst (runMigrationIfNeeded w) = Inr () \<and>
     runMigrationIfNeeded w1 = (Inr (), w1) \<and>
     (if migrationDone w then w1 = w else migrationDone w1)"
  using assms run_resolves [OF assms]
  by (simp add: Let_def run_done)

theorem migration_idempotent_witness:
  "fail_in legacyStore = None \<and> fail_in migratedStore = None \<and>
   fst (runMigrationIfNeeded legacyStore) = Inr () \<and>
   runMigrationIfNeeded (snd (runMigrationIfNeeded legacyStore)) =
     (Inr (), snd (runMigrationIfNeeded legacyStore)) \<and>
   length (budgets (snd (runMigrationIfNeeded legacyStore))) = 1 \<and>
   migrationDone migratedStore \<and>
   runMigrationIfNeeded migratedStore = (Inr (), migratedStore)"
proof -
  have 1: "fail_in legacyStore = None" and 2: "fail_in migratedStore = None"
    and 3: "migrationDone migratedStore" and 4: "\<not> migrationDone legacyStore"
    and 5: "budgets legacyStore = []"
    by (simp_all add: legacyStore_def migratedStore_def migrationDone_def)
  from migration_idempotent [OF 1] migration_idempotent [OF 2] 1 2 3 4 5 run_full [OF 1 4 5]
  show ?thesis by (simp add: Let_def prod_eq_iff)
qed

section \<open>Requests that fail\<close>

lemma awaitE:
  assumes "await m k w = (r, w')"
  obtains (rejected) e where "m w = (Inl e, w')" "r = Inl e"
        | (resolved) x w1 where "m w = (Inr x, w1)" "k x w1 = (r, w')"
  using assms by (auto simp: await_def split: prod.splits sum.splits)

lemma quietD:
  "quiet m \<Longrightarrow> m w = (r, w') \<Longrightarrow> settings w' = settings w \<and> budgets w' = budgets w"
  "quiet m \<Longrightarrow> m w = (Inl e, w') \<Longrightarrow> e = RequestError \<and> fail_in w' = None"
  by (auto simp: quiet_def)

lemma quiet_request: "quiet request"
  unfolding quiet_def request_def by (auto split: option.splits nat.splits)

lemma quiet_resolve: "quiet (resolve x)"
  unfolding quiet_def resolve_def by auto

lemma quiet_await: "quiet m \<Longrightarrow> (\<And>x. quiet (k x)) \<Longrightarrow> quiet (await m k)"
  unfolding quiet_def await_def
  by (auto split: prod.splits sum.splits)

lemma quiet_getSettingInternal: "quiet (getSettingInternal key)"
  unfolding getSettingInternal_def
  by (rule quiet_await [OF quiet_request]) (auto simp: quiet_def resolve_def)

lemma quiet_getAllBudgetsInternal: "quiet getAllBudgetsInternal"
  unfolding getAllBudgetsInternal_def
  by (rule quiet_await [OF quiet_request]) (auto simp: quiet_def resolve_def)

lemma quiet_cursor_update: "quiet (cursor_update recs)"
  unfolding cursor_update_def
  by (rule quiet_await [OF quiet_request]) (auto simp: quiet_def resolve_def)

lemma quiet_migrateCursor: "quiet (migrateCursor b seen rest)"
proof (induction rest arbitrary: seen)
  case Nil
  show ?case by (simp add: quiet_await quiet_request quiet_resolve)
next
  case (Cons r rest)
  show ?case
    by (simp add: quiet_await quiet_request quiet_cursor_update Cons.IH)
qed

lemma quiet_migrateTransactionsToBudget: "quiet (migrateTransactionsToBudget b)"
  using quiet_migrateCursor [of b "[]"]
  unfolding quiet_def migrateTransactionsToBudget_def
  by (auto split: prod.splits sum.splits)

lemma passes_request: "passes request"
  unfolding passes_def request_def by (auto split: option.splits nat.splits)

lemma passes_resolve: "passes (resolve x)"
  unfolding passes_def resolve_def by auto

lemma passes_await: "passes m \<Longrightarrow> (\<And>x. passes (k x)) \<Longrightarrow> passes (await m k)"
  unfolding passes_def await_def
  by (auto split: prod.splits sum.splits)

lemma passes_getSettingInternal: "passes (getSettingInternal key)"
  unfolding getSettingInternal_def
  by (rule passes_await [OF passes_request]) (auto simp: passes_def resolve_def)

lemma passes_setSettingInternal: "passes (setSettingInternal key v)"
  unfolding setSettingInternal_def
  by (rule passes_await [OF passes_request]) (auto simp: passes_def resolve_def)

lemma passes_getAllBudgetsInternal: "passes getAllBudgetsInternal"
  unfolding getAllBudgetsInternal_def
  by (rule passes_await [OF passes_request]) (auto simp: passes_def resolve_def)

lemma passes_createBudgetInternal: "passes (createBudgetInternal nm tgt)"
  unfolding createBudgetInternal_def
  by (rule passes_await [OF passes_request])
    (auto simp: passes_def resolve_def reject_def Let_def split: if_splits)

lemma passes_cursor_update: "passes (cursor_update recs)"
  unfolding cursor_update_def
  by (rule passes_await [OF passes_request]) (auto simp: passes_def resolve_def)

lemma passes_migrateCursor: "passes (migrateCursor b seen rest)"
proof (induction rest arbitrary: seen)
  case Nil
  show ?case by (simp add: passes_await passes_request passes_resolve)
next
  case (Cons r rest)
  show ?case
    by (simp add: passes_await passes_request passes_cursor_update Cons.IH)
qed

lemma passes_migrateTransactionsToBudget: "passes (migrateTransactionsToBudget b)"
  using passes_migrateCursor [of b "[]"]
  unfolding passes_def migrateTransactionsToBudget_def
  by (auto split: prod.splits sum.splits)

lemma passes_if: "(c \<Longrightarrow> passes a) \<Longrightarrow> (\<not> c \<Longrightarrow> passes b) \<Longrightarrow> passes (if c then a else b)"
  by simp

lemma passes_runMigrationIfNeeded: "passes runMigrationIfNeeded"
  unfolding runMigrationIfNeeded_def Let_def
  by (intro passes_await passes_if passes_resolve passes_getSettingInternal
        passes_getAllBudgetsInternal passes_createBudgetInternal
        passes_migrateTransactionsToBudget passes_setSettingInternal)

lemma setSettingInternal_Inl:
  "setSettingInternal key v w = (Inl e, w') \<Longrightarrow>
   e = RequestError \<and> fail_in w' = None \<and> settings w' = settings w"
  unfolding setSettingInternal_def await_def request_def resolve_def
  by (auto split: option.splits nat.splits)

lemma setSettingInternal_Inr:
  "setSettingInternal key v w = (Inr u, w') \<Longrightarrow> settings w' = (settings w)(key \<mapsto> v)"
  unfolding setSettingInternal_def await_def request_def resolve_def
  by (auto split: option.splits nat.splits)

lemma createBudgetInternal_Inl:
  "createBudgetInternal nm tgt w = (Inl e, w') \<Longrightarrow> budgets w = [] \<Longrightarrow>
   e = RequestError \<and> fail_in w' = None \<and> settings w' = settings w"
  unfolding createBudgetInternal_def await_def request_def resolve_def reject_def
  by (auto split: option.splits nat.splits simp: Let_def)

lemma createBudgetInternal_Inr:
  "createBudgetInternal nm tgt w = (Inr k, w') \<Longrightarrow> settings w' = settings w"
  unfolding createBudgetInternal_def await_def request_def resolve_def reject_def
  by (auto split: option.splits nat.splits if_splits simp: Let_def)

lemmas quiet_get = quietD [OF quiet_getSettingInternal]
lemmas quiet_all = quietD [OF quiet_getAllBudgetsInternal]
lemmas quiet_mig = quietD [OF quiet_migrateTransactionsToBudget]

lemma getAllBudgetsInternal_Inr:
  "getAllBudgetsInternal w = (Inr bs, w') \<Longrightarrow> bs = budgets w"
  unfolding getAllBudgetsInternal_def await_def request_def resolve_def
  by (auto split: option.splits nat.splits)

lemma run_rejected:
  assumes "runMigrationIfNeeded w = (Inl e, w')"
  shows "e = RequestError \<and> fail_in w' = None \<and>
         settings w' ''migrationV2Done'' = settings w ''migrationV2Done''"
proof -
  from assms [unfolded runMigrationIfNeeded_def] show ?thesis
  proof (cases rule: awaitE)
    case (rejected e1)
    then show ?thesis using quiet_get by fastforce
  next
    case (resolved flag w1)
    note s1 = quiet_get(1) [OF resolved(1)]
    show ?thesis
    proof (cases "truthy flag")
      case True
      with resolved(2) show ?thesis by (simp add: resolve_def)
    next
      case False
      with resolved(2) have "await getAllBudgetsInternal (\<lambda>bs.
           if length bs > 0 then setSettingInternal ''migrationV2Done'' (JBool True)
           else
             await (getSettingInternal ''monthlyTarget'') (\<lambda>t.
               let oldTarget = js_or t (JNum 1000) in
               await (createBudgetInternal (JStr ''Personal Budget'') oldTarget)
                 (\<lambda>defaultBudgetId.
                   await (migrateTransactionsToBudget (JNum (of_int defaultBudgetId))) (\<lambda>_.
                     await (setSettingInternal ''currentBudgetId''
                              (JNum (of_int defaultBudgetId))) (\<lambda>_.
                       setSettingInternal ''migrationV2Done'' (JBool True)))))) w1 = (Inl e, w')"
        by simp
      then show ?thesis
      proof (cases rule: awaitE)
        case (rejected e2)
        then show ?thesis using quiet_all s1 by fastforce
      next
        case (resolved bs w2)
        note s2 = quiet_all(1) [OF resolved(1)]
        have bs: "bs = budgets w2"
          using getAllBudgetsInternal_Inr [OF resolved(1)] s2 by simp
        show ?thesis
        proof (cases "length bs > 0")
          case True
          with resolved(2) s1 s2 show ?thesis
            by (auto dest: setSettingInternal_Inl)
        next
          case False
          with bs have empty: "budgets w2 = []" by simp
          from False resolved(2) have "await (getSettingInternal ''monthlyTarget'') (\<lambda>t.
               let oldTarget = js_or t (JNum 1000) in
               await (createBudgetInternal (JStr ''Personal Budget'') oldTarget)
                 (\<lambda>defaultBudgetId.
                   await (migrateTransactionsToBudget (JNum (of_int defaultBudgetId))) (\<lambda>_.
                     await (setSettingInternal ''currentBudgetId''
                              (JNum (of_int defaultBudgetId))) (\<lambda>_.
                       setSettingInternal ''migrationV2Done'' (JBool True))))) w2 = (Inl e, w')"
            by simp
          then show ?thesis
          proof (cases rule: awaitE)
            case (rejected e3)
            then show ?thesis using quiet_get s1 s2 by fastforce
          next
            case (resolved t w3)
            note s3 = quiet_get(1) [OF resolved(1)]
            from resolved(2) show ?thesis unfolding Let_def
            proof (cases rule: awaitE)
              case (rejected e4)
              then show ?thesis
                using createBudgetInternal_Inl [of _ _ w3 e4 w'] s1 s2 s3 empty by simp
            next
              case (resolved k w4)
              note s4 = createBudgetInternal_Inr [OF resolved(1)]
              from resolved(2) show ?thesis
              proof (cases rule: awaitE)
                case (rejected e5)
                then show ?thesis using quiet_mig s1 s2 s3 s4 by fastforce
              next
                case (resolved u w5)
                note s5 = quiet_mig(1) [OF resolved(1)]
                from resolved(2) show ?thesis
                proof (cases rule: awaitE)
                  case (rejected e6)
                  then show ?thesis
                    using setSettingInternal_Inl [of _ _ w5 e6 w'] s1 s2 s3 s4 s5 by simp
                next
                  case (resolved u' w6)
                  note s6 = setSettingInternal_Inr [OF resolved(1)]
                  from resolved(2) show ?thesis
                    using setSettingInternal_Inl [of _ _ w6 e w'] s1 s2 s3 s4 s5 s6 by simp
                qed
              qed
            qed
          qed
        qed
      qed
    qed
  qed
qed

text \<open>
  \<^bold>\<open>Claim C4, as stated, fails\<close> in its last part. On the legacy store, let the first
  event of the back-fill cursor fail: the run rejects and \<^verbatim>\<open>migrationV2Done\<close> stays unset,
  but the default budget is already stored. The next run finds a budget, sets the flag
  and returns: the migration is not attempted again, the three transactions stay without
  \<^verbatim>\<open>budgetId\<close> and \<^verbatim>\<open>currentBudgetId\<close> is never set.
\<close>

theorem migration_not_reattempted_counterexample:
  "fst (runMigrationIfNeeded (legacyStore\<lparr>fail_in := Some 4\<rparr>)) = Inl RequestError \<and>
   settings (snd (runMigrationIfNeeded (legacyStore\<lparr>fail_in := Some 4\<rparr>)))
     ''migrationV2Done'' = None \<and>
   fst (runMigrationIfNeeded (snd (runMigrationIfNeeded (legacyStore\<lparr>fail_in := Some 4\<rparr>))))
     = Inr () \<and>
   settings (snd (runMigrationIfNeeded
       (snd (runMigrationIfNeeded (legacyStore\<lparr>fail_in := Some 4\<rparr>)))))
     ''migrationV2Done'' = Some (JBool True) \<and>
   map t_budgetId (transactions (snd (runMigrationIfNeeded
       (snd (runMigrationIfNeeded (legacyStore\<lparr>fail_in := Some 4\<rparr>)))))) =
     [JUndefined, JUndefined, JUndefined] \<and>
   settings (snd (runMigrationIfNeeded
       (snd (runMigrationIfNeeded (legacyStore\<lparr>fail_in := Some 4\<rparr>)))))
     ''currentBudgetId'' = None"
proof -
  let ?w' = "legacyStore\<lparr>fail_in := None,
         budgets := [\<lparr>b_id = 1, b_name = JStr ''Personal Budget'', b_target = JNum 1500,
                       b_created = 1700002000000\<rparr>],
         budgets_key := 2\<rparr>"
  have fails: "runMigrationIfNeeded (legacyStore\<lparr>fail_in := Some 4\<rparr>) =
      (Inl RequestError, ?w')"
    by (simp add: runMigrationIfNeeded_def await_def getSettingInternal_def request_def
        resolve_def reject_def getAllBudgetsInternal_def createBudgetInternal_def
        migrateTransactionsToBudget_def js_or_def legacyStore_def legacyTxn_def Let_def)
  have "fail_in ?w' = None" "\<not> migrationDone ?w'" "budgets ?w' \<noteq> []"
    by (simp_all add: legacyStore_def migrationDone_def)
  from run_budgets [OF this] fails show ?thesis
    by (simp add: legacyStore_def legacyTxn_def)
qed

text \<open>
  \<^bold>\<open>Claim C4, amended.\<close> In every run of the migration, under every plan of request
  faults: when the run rejects, it rejects with the error of the failed request and the
  \<^verbatim>\<open>migrationV2Done\<close> setting is what it was before the run (setting it is the last
  write). The next run (no further request failing) resolves, and does the migration
  again only if the store still has no budget: then it creates the default budget,
  back-fills the transactions and sets \<^verbatim>\<open>currentBudgetId\<close> and the flag. If the store has
  a budget, the next run only sets the flag; if the flag was set already, it does
  nothing. When a run resolves, no request of the run has failed (a planned fault is
  still to come).
\<close>

theorem migration_failure_keeps_flag_retry_by_budgets:
  "case runMigrationIfNeeded w of
     (Inl e, w') \<Rightarrow>
        e = RequestError \<and>
        settings w' ''migrationV2Done'' = settings w ''migrationV2Done'' \<and>
        runMigrationIfNeeded w' =
          (Inr (),
           if migrationDone w' then w'
           else if budgets w' = []
           then w'\<lparr>budgets := [\<lparr>b_id = budgets_key w', b_name = JStr ''Personal Budget'',
                                 b_target = legacyTarget w', b_created = clock w'\<rparr>],
                   budgets_key := budgets_key w' + 1,
                   transactions :=
                     map (assignBudget (JNum (of_int (budgets_key w')))) (transactions w'),
                   settings :=
                     (settings w')(''currentBudgetId'' \<mapsto> JNum (of_int (budgets_key w')),
                                   ''migrationV2Done'' \<mapsto> JBool True)\<rparr>
           else w'\<lparr>settings := (settings w')(''migrationV2Done'' \<mapsto> JBool True)\<rparr>)
   | (Inr u, w') \<Rightarrow> fail_in w = None \<or> fail_in w' \<noteq> None"
proof (cases "runMigrationIfNeeded w")
  case (Pair r w')
  show ?thesis
  proof (cases r)
    case (Inl e)
    with Pair have run: "runMigrationIfNeeded w = (Inl e, w')" by simp
    note rej = run_rejected [OF run]
    then have ok: "fail_in w' = None" by simp
    consider "migrationDone w'" | "\<not> migrationDone w'" "budgets w' \<noteq> []"
      | "\<not> migrationDone w'" "budgets w' = []"
      by blast
    then have "runMigrationIfNeeded w' =
          (Inr (),
           if migrationDone w' then w'
           else if budgets w' = []
           then w'\<lparr>budgets := [\<lparr>b_id = budgets_key w', b_name = JStr ''Personal Budget'',
                                 b_target = legacyTarget w', b_created = clock w'\<rparr>],
                   budgets_key := budgets_key w' + 1,
                   transactions :=
                     map (assignBudget (JNum (of_int (budgets_key w')))) (transactions w'),
                   settings :=
                     (settings w')(''currentBudgetId'' \<mapsto> JNum (of_int (budgets_key w')),
                                   ''migrationV2Done'' \<mapsto> JBool True)\<rparr>
           else w'\<lparr>settings := (settings w')(''migrationV2Done'' \<mapsto> JBool True)\<rparr>)"
    proof cases
      case 1
      with ok show ?thesis by (simp add: run_done)
    next
      case 2
      with ok show ?thesis by (simp add: run_budgets)
    next
      case 3
      with ok show ?thesis by (simp add: run_full)
    qed
    with rej run show ?thesis by simp
  next
    case (Inr u)
    with Pair have "runMigrationIfNeeded w = (Inr u, w')" by simp
    with passes_runMigrationIfNeeded have "fail_in w \<noteq> None \<longrightarrow> fail_in w' \<noteq> None"
      unfolding passes_def by blast
    with Pair Inr show ?thesis by auto
  qed
qed

theorem migration_failure_keeps_flag_retry_by_budgets_witness:
  "fst (runMigrationIfNeeded (legacyStore\<lparr>fail_in := Some 2\<rparr>)) = Inl RequestError \<and>
   budgets (snd (runMigrationIfNeeded (legacyStore\<lparr>fail_in := Some 2\<rparr>))) = [] \<and>
   settings (snd (runMigrationIfNeeded (legacyStore\<lparr>fail_in := Some 2\<rparr>)))
     ''migrationV2Done'' = None \<and>
   fst (runMigrationIfNeeded (snd (runMigrationIfNeeded (legacyStore\<lparr>fail_in := Some 2\<rparr>))))
     = Inr () \<and>
   map t_budgetId (transactions (snd (runMigrationIfNeeded
       (snd (runMigrationIfNeeded (legacyStore\<lparr>fail_in := Some 2\<rparr>)))))) =
     [JNum 1, JNum 1, JNum 1] \<and>
   settings (snd (runMigrationIfNeeded
       (snd (runMigrationIfNeeded (legacyStore\<lparr>fail_in := Some 2\<rparr>)))))
     ''currentBudgetId'' = Some (JNum 1) \<and>
   fst (runMigrationIfNeeded (legacyStore\<lparr>fail_in := Some 12\<rparr>)) = Inl RequestError \<and>
   map t_budgetId (transactions (snd (runMigrationIfNeeded
       (snd (runMigrationIfNeeded (legacyStore\<lparr>fail_in := Some 12\<rparr>)))))) =
     [JNum 1, JNum 1, JNum 1] \<and>
   settings (snd (runMigrationIfNeeded
       (snd (runMigrationIfNeeded (legacyStore\<lparr>fail_in := Some 12\<rparr>)))))
     ''migrationV2Done'' = Some (JBool True) \<and>
   fst (runMigrationIfNeeded (migratedStore\<lparr>fail_in := Some 0\<rparr>)) = Inl RequestError \<and>
   runMigrationIfNeeded (snd (runMigrationIfNeeded (migratedStore\<lparr>fail_in := Some 0\<rparr>))) =
     (Inr (), migratedStore) \<and>
   fst (runMigrationIfNeeded (legacyStore\<lparr>fail_in := Some 13\<rparr>)) = Inr () \<and>
   fail_in (snd (runMigrationIfNeeded (legacyStore\<lparr>fail_in := Some 13\<rparr>))) \<noteq> None"
proof -
  note defs = runMigrationIfNeeded_def await_def getSettingInternal_def request_def
    resolve_def reject_def getAllBudgetsInternal_def createBudgetInternal_def
    setSettingInternal_def cursor_update_def migrateTransactionsToBudget_def js_or_def
    legacyStore_def legacyTxn_def Let_def
  have early: "runMigrationIfNeeded (legacyStore\<lparr>fail_in := Some 2\<rparr>) =
      (Inl RequestError, legacyStore)"
    by (simp add: defs)
  have late: "fst (runMigrationIfNeeded (legacyStore\<lparr>fail_in := Some 12\<rparr>)) =
      Inl RequestError"
    "map t_budgetId (transactions (snd (runMigrationIfNeeded
        (legacyStore\<lparr>fail_in := Some 12\<rparr>)))) = [JNum 1, JNum 1, JNum 1]"
    "budgets (snd (runMigrationIfNeeded (legacyStore\<lparr>fail_in := Some 12\<rparr>))) \<noteq> []"
    "\<not> migrationDone (snd (runMigrationIfNeeded (legacyStore\<lparr>fail_in := Some 12\<rparr>)))"
    by (simp_all add: defs migrationDone_def)
  have never: "fst (runMigrationIfNeeded (legacyStore\<lparr>fail_in := Some 13\<rparr>)) = Inr ()"
    by (simp add: defs)
  have flagged: "runMigrationIfNeeded (migratedStore\<lparr>fail_in := Some 0\<rparr>) =
      (Inl RequestError, migratedStore)" "migrationDone migratedStore"
    by (simp_all add: runMigrationIfNeeded_def await_def getSettingInternal_def request_def
        migratedStore_def migrationDone_def)
  have legacy: "\<not> migrationDone legacyStore" "budgets legacyStore = []"
    "settings legacyStore ''migrationV2Done'' = None"
    "map (assignBudget b) (transactions legacyStore) =
       map (\<lambda>t. t\<lparr>t_budgetId := b\<rparr>) (transactions legacyStore)" for b
    by (simp_all add: legacyStore_def migrationDone_def assignBudget_def legacyTxn_def)
  show ?thesis
    using migration_failure_keeps_flag_retry_by_budgets [of "legacyStore\<lparr>fail_in := Some 2\<rparr>"]
      migration_failure_keeps_flag_retry_by_budgets [of "legacyStore\<lparr>fail_in := Some 12\<rparr>"]
      migration_failure_keeps_flag_retry_by_budgets [of "legacyStore\<lparr>fail_in := Some 13\<rparr>"]
      migration_failure_keeps_flag_retry_by_budgets [of "migratedStore\<lparr>fail_in := Some 0\<rparr>"]
      early late never legacy flagged
    by (simp add: split: prod.splits sum.splits) (simp add: legacyStore_def legacyTxn_def)
qed

section \<open>Dangling budget references\<close>

text \<open>
  \<^bold>\<open>Claim C3, as stated, fails.\<close> On the store left by a run that stopped after
  creating the default budget and before back-filling, the next run finds a budget,
  sets \<^verbatim>\<open>migrationV2Done\<close> and returns: the run completes, the flag is true, and the
  three legacy transactions still have no \<^verbatim>\<open>budgetId\<close>.
\<close>

theorem migration_after_crash_counterexample:
  "fst (runMigrationIfNeeded crashedStore) = Inr () \<and>
   settings (snd (runMigrationIfNeeded crashedStore)) ''migrationV2Done'' = Some (JBool True) \<and>
   map b_id (budgets (snd (runMigrationIfNeeded crashedStore))) = [1] \<and>
   map t_budgetId (transactions (snd (runMigrationIfNeeded crashedStore))) =
     [JUndefined, JUndefined, JUndefined] \<and>
   \<not> budgetRefsValid (snd (runMigrationIfNeeded crashedStore))"
proof -
  have "fail_in crashedStore = None" "\<not> migrationDone crashedStore" "budgets crashedStore \<noteq> []"
    by (simp_all add: crashedStore_def legacyStore_def migrationDone_def)
  from run_budgets [OF this] show ?thesis
    by (simp add: crashedStore_def legacyStore_def legacyTxn_def budgetRefsValid_def)
qed

text \<open>
  \<^bold>\<open>Claim C3, amended.\<close> Take a store that is not yet marked as migrated, in which
  every \<^verbatim>\<open>budgetId\<close> that a transaction carries is the id of an existing budget, and
  which has no budget unless every transaction carries a \<^verbatim>\<open>budgetId\<close>. Then a run of
  the migration (no request failing) completes, \<^verbatim>\<open>migrationV2Done\<close> is true, and every
  transaction's \<^verbatim>\<open>budgetId\<close> is the id of an existing budget.
\<close>

theorem migration_establishes_budget_refs:
  assumes "fail_in w = None"
    and "\<not> migrationDone w"
    and "list_all (\<lambda>t. \<not> truthy (t_budgetId t) \<or>
            list_ex (\<lambda>b. t_budgetId t = JNum (of_int (b_id b))) (budgets w)) (transactions w)"
    and "budgets w = [] \<or> list_all (\<lambda>t. truthy (t_budgetId t)) (transactions w)"
  shows "fst (runMigrationIfNeeded w) = Inr () \<and>
         migrationDone (snd (runMigrationIfNeeded w)) \<and>
         budgetRefsValid (snd (runMigrationIfNeeded w))"
proof (cases "budgets w = []")
  case True
  with assms(3) have "list_all (\<lambda>t. \<not> truthy (t_budgetId t)) (transactions w)"
    by (simp add: list_all_iff)
  then have "list_all (\<lambda>t. t_budgetId (assignBudget b t) = b) (transactions w)" for b
    by (simp add: list_all_iff assignBudget_def)
  with True assms(1,2) show ?thesis
    by (simp add: run_full migrationDone_def budgetRefsValid_def list_all_iff)
next
  case False
  with assms(3,4) have "budgetRefsValid w"
    by (auto simp: budgetRefsValid_def list_all_iff)
  with False assms(1,2) show ?thesis
    by (simp add: run_budgets migrationDone_def budgetRefsValid_def)
qed

theorem migration_establishes_budget_refs_witness:
  "fail_in legacyStore = None \<and> \<not> migrationDone legacyStore \<and>
   list_all (\<lambda>t. \<not> truthy (t_budgetId t) \<or>
       list_ex (\<lambda>b. t_budgetId t = JNum (of_int (b_id b))) (budgets legacyStore))
     (transactions legacyStore) \<and>
   (budgets legacyStore = [] \<or>
    list_all (\<lambda>t. truthy (t_budgetId t)) (transactions legacyStore)) \<and>
   fst (runMigrationIfNeeded legacyStore) = Inr () \<and>
   migrationDone (snd (runMigrationIfNeeded legacyStore)) \<and>
   budgetRefsValid (snd (runMigrationIfNeeded legacyStore))"
proof -
  have h: "fail_in legacyStore = None" "\<not> migrationDone legacyStore"
    "list_all (\<lambda>t. \<not> truthy (t_budgetId t) \<or>
       list_ex (\<lambda>b. t_budgetId t = JNum (of_int (b_id b))) (budgets legacyStore))
     (transactions legacyStore)"
    "budgets legacyStore = [] \<or>
     list_all (\<lambda>t. truthy (t_budgetId t)) (transactions legacyStore)"
    by (simp_all add: legacyStore_def legacyTxn_def migrationDone_def)
  from migration_establishes_budget_refs [OF h] h show ?thesis by simp
qed

section \<open>Opening and reading settings\<close>

lemma initDB_ok:
  assumes "fail_in w = None"
  shows "fst (initDB w) = Inr ()"
    and "fail_in (snd (initDB w)) = None"
    and "migrationDone (snd (initDB w))"
    and "dbInstance (snd (initDB w))"
proof -
  define w0 where "w0 = (if dbInstance w then w else w\<lparr>dbInstance := True, opened := Suc (opened w)\<rparr>)"
  have w0: "fail_in w0 = None" "dbInstance w0"
    using assms by (simp_all add: w0_def)
  have "initDB w = (case runMigrationIfNeeded w0 of
            (Inl e, w') \<Rightarrow> (Inl e, w') | (Inr u, w') \<Rightarrow> (Inr (), w'))"
    using assms
    by (simp add: initDB_def await_def indexedDB_open_def request_ok resolve_def w0_def
        split: prod.splits sum.splits)
  with run_resolves [OF w0(1)] w0(2)
  have "fst (initDB w) = Inr () \<and> fail_in (snd (initDB w)) = None \<and>
        migrationDone (snd (initDB w)) \<and> dbInstance (snd (initDB w))"
    by (auto split: prod.splits sum.splits)
  then show "fst (initDB w) = Inr ()" and "fail_in (snd (initDB w)) = None"
    and "migrationDone (snd (initDB w))" and "dbInstance (snd (initDB w))"
    by simp_all
qed

lemma initDB_ready:
  "fail_in w = None \<Longrightarrow> dbInstance w \<Longrightarrow> migrationDone w \<Longrightarrow> initDB w = (Inr (), w)"
  by (simp add: initDB_def await_def resolve_def run_done)

lemma await_initDB:
  "fail_in w = None \<Longrightarrow> await initDB k w = k () (snd (initDB w))"
  using initDB_ok(1) [of w] by (cases "initDB w") (auto simp add: await_def)

text \<open>
  \<^bold>\<open>Claim C10.\<close> With no request failing, \<^verbatim>\<open>getSettingInternal\<close> and \<^verbatim>\<open>getSetting\<close>
  resolve, for every key: to \<^verbatim>\<open>null\<close> when the settings store has no record under the key,
  and to the stored value, whatever it is, when it has one. (\<^verbatim>\<open>getSetting\<close> reads the
  store as \<^verbatim>\<open>initDB\<close> leaves it.)
\<close>

theorem getSetting_null_or_stored_value:
  assumes "fail_in w = None"
  shows "getSettingInternal key w =
           (Inr (case settings w key of None \<Rightarrow> JNull | Some v \<Rightarrow> v), w) \<and>
         getSetting key w =
           (Inr (case settings (snd (initDB w)) key of None \<Rightarrow> JNull | Some v \<Rightarrow> v),
            snd (initDB w))"
  using assms initDB_ok(2) [OF assms]
  by (simp add: getSetting_def await_initDB getSettingInternal_ok)

theorem getSetting_null_or_stored_value_witness:
  "fail_in migratedStore = None \<and>
   fst (getSetting ''monthlyTarget'' migratedStore) = Inr JNull \<and>
   fst (getSetting ''onboarded'' migratedStore) = Inr (JBool False) \<and>
   fst (getSetting ''streak'' migratedStore) = Inr (JNum 0) \<and>
   fst (getSetting ''theme'' migratedStore) = Inr (JStr []) \<and>
   fst (getSetting ''currentBudgetId'' migratedStore) = Inr (JNum 1)"
proof -
  have h: "fail_in migratedStore = None" "dbInstance migratedStore"
    "migrationDone migratedStore"
    by (simp_all add: migratedStore_def migrationDone_def)
  from getSetting_null_or_stored_value [OF h(1)] initDB_ready [OF h] h(1)
  show ?thesis by (simp add: migratedStore_def)
qed

section \<open>What opening the database keeps\<close>

lemma run_keeps:
  assumes "fail_in w = None"
  shows "transactions_key (snd (runMigrationIfNeeded w)) = transactions_key w"
    and "map t_id (transactions (snd (runMigrationIfNeeded w))) = map t_id (transactions w)"
    and "map t_timestamp (transactions (snd (runMigrationIfNeeded w))) =
         map t_timestamp (transactions w)"
    and "clock (snd (runMigrationIfNeeded w)) = clock w"
    and "localTZA (snd (runMigrationIfNeeded w)) = localTZA w"
proof -
  have ids: "map t_id (map (assignBudget b) xs) = map t_id xs"
    and ts: "map t_timestamp (map (assignBudget b) xs) = map t_timestamp xs" for b xs
    by (simp_all add: assignBudget_def)
  consider "migrationDone w" | "\<not> migrationDone w" "budgets w \<noteq> []"
    | "\<not> migrationDone w" "budgets w = []"
    by blast
  then have "transactions_key (snd (runMigrationIfNeeded w)) = transactions_key w \<and>
     map t_id (transactions (snd (runMigrationIfNeeded w))) = map t_id (transactions w) \<and>
     map t_timestamp (transactions (snd (runMigrationIfNeeded w))) =
       map t_timestamp (transactions w) \<and>
     clock (snd (runMigrationIfNeeded w)) = clock w \<and>
     localTZA (snd (runMigrationIfNeeded w)) = localTZA w"
  proof cases
    case 1
    with assms show ?thesis by (simp add: run_done)
  next
    case 2
    with assms show ?thesis by (simp add: run_budgets)
  next
    case 3
    with assms show ?thesis by (simp add: run_full ids ts del: map_map)
  qed
  then show "transactions_key (snd (runMigrationIfNeeded w)) = transactions_key w"
    and "map t_id (transactions (snd (runMigrationIfNeeded w))) = map t_id (transactions w)"
    and "map t_timestamp (transactions (snd (runMigrationIfNeeded w))) =
         map t_timestamp (transactions w)"
    and "clock (snd (runMigrationIfNeeded w)) = clock w"
    and "localTZA (snd (runMigrationIfNeeded w)) = localTZA w"
    by simp_all
qed

lemma initDB_keeps:
  assumes "fail_in w = None"
  shows "transactions_key (snd (initDB w)) = transactions_key w"
    and "map t_id (transactions (snd (initDB w))) = map t_id (transactions w)"
    and "map t_timestamp (transactions (snd (initDB w))) = map t_timestamp (transactions w)"
    and "clock (snd (initDB w)) = clock w"
    and "localTZA (snd (initDB w)) = localTZA w"
proof -
  define w0 where "w0 = (if dbInstance w then w else w\<lparr>dbInstance := True, opened := Suc (opened w)\<rparr>)"
  have w0: "fail_in w0 = None"
    using assms by (simp add: w0_def)
  have "initDB w = (case runMigrationIfNeeded w0 of
            (Inl e, w') \<Rightarrow> (Inl e, w') | (Inr u, w') \<Rightarrow> (Inr (), w'))"
    using assms
    by (simp add: initDB_def await_def indexedDB_open_def request_ok resolve_def w0_def
        split: prod.splits sum.splits)
  then have "snd (initDB w) = snd (runMigrationIfNeeded w0)"
    by (simp split: prod.splits sum.splits)
  with run_keeps [OF w0]
  show "transactions_key (snd (initDB w)) = transactions_key w"
    and "map t_id (transactions (snd (initDB w))) = map t_id (transactions w)"
    and "map t_timestamp (transactions (snd (initDB w))) = map t_timestamp (transactions w)"
    and "clock (snd (initDB w)) = clock w"
    and "localTZA (snd (initDB w)) = localTZA w"
    by (simp_all add: w0_def)
qed

lemma initDB_keeps_ids:
  "fail_in w = None \<Longrightarrow> t_id ` set (transactions (snd (initDB w))) = t_id ` set (transactions w)"
  using initDB_keeps(2) [of w] by (metis set_map)

section \<open>Updating and deleting records\<close>

lemma await_request_ok: "fail_in w = None \<Longrightarrow> await request k w = k () w"
  by (simp add: await_def request_ok)

lemma find_None_iff_key: "find (\<lambda>r. f r = k) xs = None \<longleftrightarrow> k \<notin> f ` set xs"
  by (auto simp: find_None_iff)

text \<open>
  \<^bold>\<open>Claim C6, as stated, fails\<close> for \<^verbatim>\<open>deleteTransaction\<close>: no transaction of the sample
  store has id 42, and deleting id 42 resolves, leaving the store as it was.
\<close>

theorem deleteTransaction_missing_id_counterexample:
  "transactionById 42 migratedStore = None \<and>
   deleteTransaction 42 migratedStore = (Inr (), migratedStore)"
proof -
  have h: "fail_in migratedStore = None" "dbInstance migratedStore"
    "migrationDone migratedStore"
    by (simp_all add: migratedStore_def migrationDone_def)
  have "deleteTransaction 42 migratedStore =
      (Inr (), migratedStore\<lparr>transactions :=
          filter (\<lambda>r. t_id r \<noteq> 42) (transactions migratedStore)\<rparr>)"
    using h initDB_ready [OF h]
    by (simp add: deleteTransaction_def await_initDB await_request_ok resolve_def)
  then show ?thesis by (simp add: transactionById_def migratedStore_def)
qed

text \<open>
  \<^bold>\<open>Claim C6, amended.\<close> With no request failing: for every id that identifies no
  transaction, \<^verbatim>\<open>updateTransactionNote\<close> rejects with the error "Transaction not found"
  and \<^verbatim>\<open>deleteTransaction\<close> resolves; for every id that identifies no budget (in the
  store as \<^verbatim>\<open>initDB\<close> leaves it, since the migration may create one), \<^verbatim>\<open>updateBudget\<close>
  rejects with the error "Budget not found". All three leave the store as it was.
\<close>

theorem missing_id_update_rejects_delete_resolves:
  assumes "fail_in w = None"
    and "tid \<notin> t_id ` set (transactions w)"
    and "bid \<notin> b_id ` set (budgets (snd (initDB w)))"
  shows "updateTransactionNote tid note w =
           (Inl (Error ''Transaction not found''), snd (initDB w)) \<and>
         updateBudget bid updates w = (Inl (Error ''Budget not found''), snd (initDB w)) \<and>
         deleteTransaction tid w = (Inr (), snd (initDB w))"
proof -
  let ?w' = "snd (initDB w)"
  note ok = initDB_ok(2) [OF assms(1)]
  from assms(2) have tid: "tid \<notin> t_id ` set (transactions ?w')"
    by (simp add: initDB_keeps_ids [OF assms(1)])
  have del: "filter (\<lambda>r. t_id r \<noteq> tid) xs = xs" if "tid \<notin> t_id ` set xs"
    for xs :: "txn list"
    using that by (induction xs) auto
  have "updateTransactionNote tid note w = (Inl (Error ''Transaction not found''), ?w')"
    using tid assms(1) ok find_None_iff_key [of t_id tid "transactions ?w'"]
    by (simp add: updateTransactionNote_def await_initDB await_request_ok reject_def)
  moreover have "deleteTransaction tid w = (Inr (), ?w')"
    using assms(1) ok del [OF tid]
    by (simp add: deleteTransaction_def await_initDB await_request_ok resolve_def)
  moreover have "updateBudget bid updates w = (Inl (Error ''Budget not found''), ?w')"
    using assms(1,3) ok find_None_iff_key [of b_id bid "budgets ?w'"]
    by (simp add: updateBudget_def await_initDB await_request_ok reject_def)
  ultimately show ?thesis
    by simp
qed

theorem missing_id_update_rejects_delete_resolves_witness:
  "fail_in migratedStore = None \<and>
   3 \<notin> t_id ` set (transactions migratedStore) \<and>
   7 \<notin> b_id ` set (budgets (snd (initDB migratedStore))) \<and>
   fst (updateTransactionNote 3 (JStr ''coffee'') migratedStore) =
     Inl (Error ''Transaction not found'') \<and>
   fst (updateBudget 7 renameUpdates migratedStore) = Inl (Error ''Budget not found'') \<and>
   deleteTransaction 3 migratedStore = (Inr (), migratedStore)"
proof -
  have h: "fail_in migratedStore = None" "dbInstance migratedStore"
    "migrationDone migratedStore"
    by (simp_all add: migratedStore_def migrationDone_def)
  note ready = initDB_ready [OF h]
  have ids: "3 \<notin> t_id ` set (transactions migratedStore)"
    "7 \<notin> b_id ` set (budgets (snd (initDB migratedStore)))"
    by (simp_all add: ready) (simp_all add: migratedStore_def)
  from missing_id_update_rejects_delete_resolves
         [OF h(1) ids, of "JStr ''coffee''" renameUpdates] ready h(1) ids
  show ?thesis by simp
qed

section \<open>Adding a transaction\<close>

lemma find_insort_key_new:
  "f x \<notin> f ` set xs \<Longrightarrow> find (\<lambda>r. f r = f x) (insort_key f x xs) = Some x"
  by (induction xs) auto

lemma filter_insort_key_new:
  "f x \<notin> f ` set xs \<Longrightarrow> filter (\<lambda>r. f r \<noteq> f x) (insort_key f x xs) = xs"
  by (simp add: filter_insort_triv filter_id_conv) (metis imageI)

text \<open>
  \<^bold>\<open>Claim C9, as stated, fails\<close> when the note is omitted: the record read back has the
  field \<^verbatim>\<open>note\<close>, with the empty string, which the input does not have.
\<close>

theorem addTransaction_omitted_note_counterexample:
  "fst (addTransaction notelessInput migratedStore) = Inr 5 \<and>
   map_option t_note (transactionById 5 (snd (addTransaction notelessInput migratedStore))) =
     Some (JStr []) \<and>
   in_note notelessInput = JUndefined"
proof -
  have h: "fail_in migratedStore = None" "dbInstance migratedStore"
    "migrationDone migratedStore"
    by (simp_all add: migratedStore_def migrationDone_def)
  have "addTransaction notelessInput migratedStore =
      (Inr 5, migratedStore\<lparr>transactions := insort_key t_id
          \<lparr>t_id = 5, t_amount = JNum 12, t_category = JStr ''Food'', t_note = JStr [],
           t_budgetId = JNum 1, t_timestamp = 1700002000000\<rparr> (transactions migratedStore),
        transactions_key := 6\<rparr>)"
    using h initDB_ready [OF h]
    by (simp add: addTransaction_def await_initDB await_request_ok resolve_def Let_def
        js_or_def notelessInput_def)
       (simp add: migratedStore_def)
  then show ?thesis
    by (simp add: transactionById_def notelessInput_def) (simp add: migratedStore_def)
qed

text \<open>
  \<^bold>\<open>Claim C9, amended.\<close> For every transaction input, on a store whose key generator
  is ahead of the keys in use and with no request failing, \<^verbatim>\<open>addTransaction\<close> resolves
  with an id that no record had before; the record read back by that id has the input's
  amount, category and budgetId, the input's note when that is truthy (a non-empty
  string) and the empty string otherwise (so also when the note is omitted), the clock
  value at creation as timestamp, and the id; the other records are as they were.
\<close>

theorem addTransaction_then_get:
  assumes "fail_in w = None"
    and "transactions_key w \<notin> t_id ` set (transactions w)"
  shows "let w' = snd (initDB w); w1 = snd (addTransaction transaction w);
             newId = transactions_key w in
     fst (addTransaction transaction w) = Inr newId \<and>
     transactionById newId w' = None \<and>
     transactionById newId w1 =
       Some \<lparr>t_id = newId,
             t_amount = in_amount transaction,
             t_category = in_category transaction,
             t_note = (if truthy (in_note transaction) then in_note transaction else JStr []),
             t_budgetId = in_budgetId transaction,
             t_timestamp = clock w\<rparr> \<and>
     filter (\<lambda>r. t_id r \<noteq> newId) (transactions w1) = transactions w'"
proof -
  let ?w' = "snd (initDB w)"
  let ?r = "\<lparr>t_id = transactions_key w,
             t_amount = in_amount transaction,
             t_category = in_category transaction,
             t_note = (if truthy (in_note transaction) then in_note transaction else JStr []),
             t_budgetId = in_budgetId transaction,
             t_timestamp = clock w\<rparr>"
  note ok = initDB_ok(2) [OF assms(1)]
  note keeps = initDB_keeps(1,4) [OF assms(1)] initDB_keeps_ids [OF assms(1)]
  from assms(2) keeps have fresh: "t_id ?r \<notin> t_id ` set (transactions ?w')"
    by simp
  have add: "addTransaction transaction w =
      (Inr (transactions_key w),
       ?w'\<lparr>transactions := insort_key t_id ?r (transactions ?w'),
           transactions_key := transactions_key w + 1\<rparr>)"
    using assms ok keeps
    by (simp add: addTransaction_def await_initDB await_request_ok resolve_def Let_def
        js_or_def)
  from find_insort_key_new [OF fresh] filter_insort_key_new [OF fresh] fresh
  show ?thesis
    by (simp add: add Let_def transactionById_def find_None_iff_key)
qed

theorem addTransaction_then_get_witness:
  "fail_in migratedStore = None \<and>
   transactions_key migratedStore \<notin> t_id ` set (transactions migratedStore) \<and>
   fst (addTransaction notelessInput migratedStore) = Inr 5 \<and>
   transactionById 5 (snd (addTransaction notelessInput migratedStore)) =
     Some \<lparr>t_id = 5, t_amount = JNum 12, t_category = JStr ''Food'', t_note = JStr [],
           t_budgetId = JNum 1, t_timestamp = 1700002000000\<rparr>"
proof -
  have h: "fail_in migratedStore = None"
    "transactions_key migratedStore \<notin> t_id ` set (transactions migratedStore)"
    by (simp_all add: migratedStore_def)
  have v: "transactions_key migratedStore = 5" "clock migratedStore = 1700002000000"
    by (simp_all add: migratedStore_def)
  from addTransaction_then_get [OF h, of notelessInput] h v
  show ?thesis by (simp add: Let_def notelessInput_def)
qed

section \<open>Range queries\<close>

lemma collectCursor_ok:
  "fail_in w = None \<Longrightarrow>
   collectCursor b vs results w = (Inr (results @ filter (\<lambda>v. t_budgetId v = b) vs), w)"
  by (induction vs arbitrary: results)
     (simp_all add: await_request_ok resolve_def strict_equals_def)

lemma deleteCursor_ok:
  "fail_in w = None \<Longrightarrow>
   deleteCursor b vs n w =
     (Inr (n + length (filter (\<lambda>v. t_budgetId v = b) vs)),
      w\<lparr>transactions :=
          filter (\<lambda>r. t_id r \<notin> t_id ` set (filter (\<lambda>v. t_budgetId v = b) vs))
            (transactions w)\<rparr>)"
proof (induction vs arbitrary: n w)
  case Nil
  then show ?case by (simp add: await_request_ok resolve_def)
next
  case (Cons v vs)
  show ?case
  proof (cases "t_budgetId v = b")
    case False
    with Cons show ?thesis
      by (simp add: await_request_ok strict_equals_def)
  next
    case True
    let ?w = "w\<lparr>transactions := filter (\<lambda>r. t_id r \<noteq> t_id v) (transactions w)\<rparr>"
    have "fail_in ?w = None"
      using Cons.prems by simp
    moreover have "cursor_delete v w = (Inr (), ?w)"
      using Cons.prems by (simp add: cursor_delete_def await_request_ok resolve_def)
    then have "await (cursor_delete v) k w = k () ?w" for k :: "unit \<Rightarrow> nat promise"
      by (simp add: await_def)
    ultimately show ?thesis
      using Cons.IH [of ?w "n + 1"] True Cons.prems
      by (simp add: await_request_ok strict_equals_def conj_commute)
  qed
qed

lemma set_index_openCursor:
  "set (index_openCursor (l, u) xs) =
   {r \<in> set xs. l \<le> t_timestamp r \<and> t_timestamp r \<le> u}"
  by (auto simp: index_openCursor_def)

lemma getTransactionsByDateRange_ok:
  assumes "fail_in w = None" and "s \<le> e"
  shows "getTransactionsByDateRange (Some s) (Some e) b w =
     (Inr (filter (\<lambda>v. t_budgetId v = b)
             (index_openCursor (s, e) (transactions (snd (initDB w))))),
      snd (initDB w))"
  using assms initDB_ok(2) [OF assms(1)]
  by (simp add: getTransactionsByDateRange_def await_initDB IDBKeyRange_bound_def
      collectCursor_ok)

lemma deleteTransactionsByDateRange_ok:
  assumes "fail_in w = None" and "s \<le> e"
  shows "deleteTransactionsByDateRange (Some s) (Some e) b w =
     (Inr (length (filter (\<lambda>v. t_budgetId v = b)
             (index_openCursor (s, e) (transactions (snd (initDB w)))))),
      (snd (initDB w))\<lparr>transactions :=
         filter (\<lambda>r. t_id r \<notin> t_id ` set (filter (\<lambda>v. t_budgetId v = b)
                   (index_openCursor (s, e) (transactions (snd (initDB w))))))
           (transactions (snd (initDB w)))\<rparr>)"
  using assms initDB_ok(2) [OF assms(1)]
  by (simp add: deleteTransactionsByDateRange_def await_initDB IDBKeyRange_bound_def
      deleteCursor_ok)

lemma filter_index_openCursor:
  "length (filter (\<lambda>v. t_budgetId v = b) (index_openCursor (s, e) xs)) =
   length (filter (\<lambda>r. s \<le> t_timestamp r \<and> t_timestamp r \<le> e \<and> t_budgetId r = b) xs)"
proof -
  have "filter (\<lambda>v. t_budgetId v = b) (index_openCursor (s, e) xs) =
        sort_key t_timestamp
          (filter (\<lambda>r. s \<le> t_timestamp r \<and> t_timestamp r \<le> e \<and> t_budgetId r = b) xs)"
    by (simp add: index_openCursor_def filter_sort conj_commute conj_left_commute)
  then show ?thesis by simp
qed

text \<open>
  \<^bold>\<open>Claim C8, as stated, fails\<close> when the start lies after the end:
  \<^verbatim>\<open>IDBKeyRange.bound\<close> throws, so both \<^verbatim>\<open>deleteTransactionsByDateRange\<close> and
  \<^verbatim>\<open>getTransactionsByDateRange\<close> reject with a \<^verbatim>\<open>DataError\<close> instead of returning a count
  and an empty list.
\<close>

theorem deleteByDateRange_reversed_bounds_counterexample:
  "fst (deleteTransactionsByDateRange (Some 1700000600000) (Some 1700000000000) (JNum 1)
          migratedStore) = Inl DataError \<and>
   fst (getTransactionsByDateRange (Some 1700000600000) (Some 1700000000000) (JNum 1)
          migratedStore) = Inl DataError"
proof -
  have h: "fail_in migratedStore = None" "dbInstance migratedStore"
    "migrationDone migratedStore"
    by (simp_all add: migratedStore_def migrationDone_def)
  show ?thesis
    using h(1)
    by (simp add: deleteTransactionsByDateRange_def getTransactionsByDateRange_def
        await_initDB IDBKeyRange_bound_def reject_def)
qed

text \<open>
  \<^bold>\<open>Claim C8, amended.\<close> For every store, every budgetId and all valid dates with
  start not after end (no request failing): \<^verbatim>\<open>deleteTransactionsByDateRange\<close> resolves
  with the number of transactions of that budget that the store held within the bounds
  before the deletion, and \<^verbatim>\<open>getTransactionsByDateRange\<close> over the same bounds, run next,
  resolves with the empty list.
\<close>

theorem deleteByDateRange_then_byDateRange_empty:
  assumes "fail_in w = None" and "s \<le> e"
  shows "let w1 = snd (deleteTransactionsByDateRange (Some s) (Some e) b w) in
     fst (deleteTransactionsByDateRange (Some s) (Some e) b w) =
       Inr (length (recordsInBounds s e b (snd (initDB w)))) \<and>
     fst (getTransactionsByDateRange (Some s) (Some e) b w1) = Inr [] \<and>
     recordsInBounds s e b w1 = []"
proof -
  let ?w' = "snd (initDB w)"
  let ?hit = "filter (\<lambda>v. t_budgetId v = b) (index_openCursor (s, e) (transactions ?w'))"
  let ?w1 = "?w'\<lparr>transactions := filter (\<lambda>r. t_id r \<notin> t_id ` set ?hit) (transactions ?w')\<rparr>"
  note del = deleteTransactionsByDateRange_ok [OF assms, of b]
  have w1: "fail_in ?w1 = None" "dbInstance ?w1" "migrationDone ?w1"
    using initDB_ok(2,3,4) [OF assms(1)] by (simp_all add: migrationDone_def)
  have gone: "recordsInBounds s e b ?w1 = []"
    by (auto simp add: recordsInBounds_def filter_empty_conv set_index_openCursor)
  then have "filter (\<lambda>v. t_budgetId v = b) (index_openCursor (s, e) (transactions ?w1)) = []"
    using filter_index_openCursor [of b s e "transactions ?w1"]
    by (simp add: recordsInBounds_def)
  with getTransactionsByDateRange_ok [OF w1(1) assms(2), of b] initDB_ready [OF w1]
  have "fst (getTransactionsByDateRange (Some s) (Some e) b ?w1) = Inr []"
    by simp
  with gone show ?thesis
    by (simp add: del Let_def filter_index_openCursor recordsInBounds_def)
qed

theorem deleteByDateRange_then_byDateRange_empty_witness:
  "fail_in migratedStore = None \<and> (1700000000000 :: int) \<le> 1700000600000 \<and>
   map t_id (recordsInBounds 1700000000000 1700000600000 (JNum 1) migratedStore) = [1, 2] \<and>
   fst (deleteTransactionsByDateRange (Some 1700000000000) (Some 1700000600000) (JNum 1)
          migratedStore) = Inr 2 \<and>
   fst (getTransactionsByDateRange (Some 1700000000000) (Some 1700000600000) (JNum 1)
          (snd (deleteTransactionsByDateRange (Some 1700000000000) (Some 1700000600000)
                  (JNum 1) migratedStore))) = Inr []"
proof -
  have h: "fail_in migratedStore = None" "dbInstance migratedStore"
    "migrationDone migratedStore"
    by (simp_all add: migratedStore_def migrationDone_def)
  have le: "(1700000000000 :: int) \<le> 1700000600000" by simp
  have before: "map t_id (recordsInBounds 1700000000000 1700000600000 (JNum 1) migratedStore)
      = [1, 2]"
    by (simp add: recordsInBounds_def migratedStore_def)
  then have "length (recordsInBounds 1700000000000 1700000600000 (JNum 1) migratedStore) = 2"
    by (metis length_map length_Cons list.size(3) numeral_2_eq_2)
  with deleteByDateRange_then_byDateRange_empty [OF h(1) le, of "JNum 1"]
    initDB_ready [OF h] h(1) before
  show ?thesis by (simp add: Let_def)
qed

section \<open>Month boundaries\<close>

lemma month_cases:
  assumes "0 \<le> m" "m \<le> (11 :: int)"
  obtains "m = 0" | "m = 1" | "m = 2" | "m = 3" | "m = 4" | "m = 5" | "m = 6" | "m = 7"
    | "m = 8" | "m = 9" | "m = 10" | "m = 11"
  using assms by atomize_elim arith

lemma div_succ:
  fixes a d :: int
  assumes "1 < d"
  shows "(a + 1) div d = a div d + (if (a + 1) mod d = 0 then 1 else 0)"
proof -
  define k where "k = (a + 1) div d"
  define r where "r = (a + 1) mod d"
  have eq: "a + 1 = d * k + r" and r: "0 \<le> r" "r < d"
    using assms by (simp_all add: k_def r_def)
  show ?thesis
  proof (cases "r = 0")
    case True
    have "a = d * (k - 1) + (d - 1)"
      using eq True by (simp add: algebra_simps)
    then have "a div d = k - 1"
      by (rule int_div_pos_eq) (use assms in simp_all)
    with True show ?thesis by (simp add: k_def r_def)
  next
    case False
    have "a = d * k + (r - 1)"
      using eq by simp
    then have "a div d = k"
      by (rule int_div_pos_eq) (use r False in simp_all)
    with False show ?thesis by (simp add: k_def r_def)
  qed
qed

lemma mod_shift:
  "(y - 1968) mod 4 = y mod 4" "(y - 1900) mod 100 = y mod 100"
  "(y - 1600) mod 400 = y mod 400" for y :: int
proof -
  have "y - 1968 = y + (- 492) * 4" "y - 1900 = y + (- 19) * 100" "y - 1600 = y + (- 4) * 400"
    by simp_all
  then show "(y - 1968) mod 4 = y mod 4" "(y - 1900) mod 100 = y mod 100"
    "(y - 1600) mod 400 = y mod 400"
    by (simp_all only: mod_mult_self1)
qed


lemma mod_400: "y mod 400 = 0 \<Longrightarrow> y mod 100 = 0" "y mod 100 = 0 \<Longrightarrow> y mod 4 = 0"
  for y :: int
proof -
  have "y mod 400 mod 100 = y mod 100" "y mod 100 mod 4 = y mod 4"
    by (rule mod_mod_cancel, simp)+
  then show "y mod 400 = 0 \<Longrightarrow> y mod 100 = 0" "y mod 100 = 0 \<Longrightarrow> y mod 4 = 0"
    by auto
qed

lemma DayFromYear_Suc: "DayFromYear (y + 1) = DayFromYear y + 365 + InLeapYear y"
proof -
  have a: "(y - 1968) div 4 = (y - 1969) div 4 + (if y mod 4 = 0 then 1 else 0)"
    using div_succ [of 4 "y - 1969"] by (simp add: mod_shift)
  have b: "(y - 1900) div 100 = (y - 1901) div 100 + (if y mod 100 = 0 then 1 else 0)"
    using div_succ [of 100 "y - 1901"] by (simp add: mod_shift)
  have c: "(y - 1600) div 400 = (y - 1601) div 400 + (if y mod 400 = 0 then 1 else 0)"
    using div_succ [of 400 "y - 1601"] by (simp add: mod_shift)
  have d: "y + 1 - 1969 = y - 1968" "y + 1 - 1901 = y - 1900" "y + 1 - 1601 = y - 1600"
    "y + 1 - 1970 = y - 1969"
    by simp_all
  show ?thesis
    unfolding DayFromYear_def InLeapYear_def DaysInYear_def d a b c
    using mod_400 [of y] by auto
qed


lemma InLeapYear_leapYear: "InLeapYear y = (if leapYear y then 1 else 0)"
  unfolding InLeapYear_def DaysInYear_def leapYear_def
  using mod_400 [of y] by (cases "y mod 4 = 0"; cases "y mod 100 = 0"; cases "y mod 400 = 0") simp_all

text \<open>The day number of 1 January agrees with the calendar: it is 0 for 1970 and grows
  by the length of the year.\<close>

lemma DayFromYear_calendar:
  "DayFromYear 1970 = 0"
  "DayFromYear (y + 1) = DayFromYear y + (if leapYear y then 366 else 365)"
proof -
  show "DayFromYear 1970 = 0"
    by (simp add: DayFromYear_def)
  show "DayFromYear (y + 1) = DayFromYear y + (if leapYear y then 366 else 365)"
    by (simp add: DayFromYear_Suc InLeapYear_leapYear)
qed

lemma MakeDay_first:
  assumes "0 \<le> m" "m \<le> 11"
  shows "MakeDay y m 1 = firstDayOfMonth y m"
  using assms
  by (cases m rule: month_cases)
     (simp_all add: MakeDay_def monthStart_def firstDayOfMonth_def daysInMonth_def
       InLeapYear_leapYear Let_def eval_nat_numeral)

lemma MakeDay_last:
  assumes "0 \<le> m" "m \<le> 11"
  shows "MakeDay y (m + 1) 0 = firstDayOfMonth y m + daysInMonth y m - 1"
proof (cases "m = 11")
  case True
  have "daysBeforeMonth y 11 = 334 + InLeapYear y"
    by (simp add: eval_nat_numeral daysInMonth_def InLeapYear_leapYear)
  with True show ?thesis
    by (simp add: MakeDay_def monthStart_def firstDayOfMonth_def daysInMonth_def Let_def
        DayFromYear_Suc)
next
  case False
  with assms have "0 \<le> m + 1" "m + 1 \<le> 11" by simp_all
  then have "MakeDay y (m + 1) 1 = firstDayOfMonth y (m + 1)"
    by (rule MakeDay_first)
  moreover have "nat (m + 1) = Suc (nat m)"
    using assms by simp
  ultimately show ?thesis
    using assms by (simp add: MakeDay_def firstDayOfMonth_def Let_def)
qed

lemma newDate_month_start:
  assumes "0 \<le> m" "m \<le> 11"
  shows "newDate tza y m 1 0 0 0 0 = TimeClip (monthFirstInstant tza (dateYear y) m)"
  using MakeDay_first [OF assms]
  by (simp add: newDate_def monthFirstInstant_def dateYear_def MakeDate_def MakeTime_def
      Let_def)

lemma newDate_month_end:
  assumes "0 \<le> m" "m \<le> 11"
  shows "newDate tza y (m + 1) 0 23 59 59 999 = TimeClip (monthLastInstant tza (dateYear y) m)"
proof -
  have "MakeDate (firstDayOfMonth yr m + daysInMonth yr m - 1) (MakeTime 23 59 59 999) =
        (firstDayOfMonth yr m + daysInMonth yr m) * msPerDay - 1" for yr
    by (simp add: MakeDate_def MakeTime_def msPerDay_def algebra_simps)
  with MakeDay_last [OF assms] show ?thesis
    by (simp add: newDate_def monthLastInstant_def dateYear_def Let_def)
qed

lemma month_bounds_ordered:
  assumes "\<forall>t. \<bar>tza t\<bar> \<le> msPerDay"
  shows "monthFirstInstant tza y m \<le> monthLastInstant tza y m"
proof -
  let ?l1 = "firstDayOfMonth y m * 86400000"
  let ?l2 = "(firstDayOfMonth y m + daysInMonth y m) * 86400000 - 1"
  have "28 \<le> daysInMonth y m"
    by (simp add: daysInMonth_def)
  then have "?l1 + 28 * 86400000 - 1 \<le> ?l2"
    by (simp add: algebra_simps)
  moreover from assms have "\<bar>tza ?l1\<bar> \<le> 86400000" "\<bar>tza ?l2\<bar> \<le> 86400000"
    by (simp_all add: msPerDay_def)
  ultimately show ?thesis
    by (simp add: monthFirstInstant_def monthLastInstant_def UTC_def msPerDay_def)
qed

lemma getTransactionsByMonth_ok:
  assumes "fail_in w = None" and "0 \<le> m" and "m \<le> 11"
    and "\<forall>t. \<bar>localTZA w t\<bar> \<le> msPerDay"
    and "\<bar>monthFirstInstant (localTZA w) (dateYear y) m\<bar> \<le> maxTimeValue"
    and "\<bar>monthLastInstant (localTZA w) (dateYear y) m\<bar> \<le> maxTimeValue"
  shows "getTransactionsByMonth y m b w =
     (Inr (sort_key t_timestamp
             (recordsInBounds (monthFirstInstant (localTZA w) (dateYear y) m)
                (monthLastInstant (localTZA w) (dateYear y) m) b (snd (initDB w)))),
      snd (initDB w))"
proof -
  let ?w' = "snd (initDB w)"
  let ?lo = "monthFirstInstant (localTZA w) (dateYear y) m"
  let ?hi = "monthLastInstant (localTZA w) (dateYear y) m"
  note tz = initDB_keeps(5) [OF assms(1)]
  have bound: "IDBKeyRange_bound (newDate (localTZA w) y m 1 0 0 0 0)
      (newDate (localTZA w) y (m + 1) 0 23 59 59 999) = Inr (?lo, ?hi)"
    using assms(5,6) month_bounds_ordered [OF assms(4), of "dateYear y" m]
    by (simp add: newDate_month_start [OF assms(2,3)] newDate_month_end [OF assms(2,3)]
        TimeClip_def maxTimeValue_def IDBKeyRange_bound_def)
  have "filter (\<lambda>v. t_budgetId v = b) (index_openCursor (?lo, ?hi) (transactions ?w')) =
        sort_key t_timestamp (recordsInBounds ?lo ?hi b ?w')"
    by (simp add: index_openCursor_def recordsInBounds_def filter_sort conj_commute
        conj_left_commute)
  then show ?thesis
    using assms(1) initDB_ok(2) [OF assms(1)]
    by (simp add: getTransactionsByMonth_def await_initDB tz bound collectCursor_ok Let_def)
qed

text \<open>
  \<^bold>\<open>Claim C7, as stated, fails\<close> in two ways. For a year whose months lie beyond the
  largest time value of a \<^verbatim>\<open>Date\<close>, the bounds are \<^verbatim>\<open>NaN\<close>, \<^verbatim>\<open>IDBKeyRange.bound\<close> throws,
  and the call rejects with a \<^verbatim>\<open>DataError\<close> instead of returning the (empty) list. For
  a year from 0 to 99 the \<^verbatim>\<open>Date\<close> constructor means 1900 to 1999: the call for January
  of year 99 returns a transaction of January 1999, which is not within January of the
  year 99.
\<close>

theorem byMonth_year_counterexample:
  "fst (getTransactionsByMonth 300000 0 (JNum 1) migratedStore) = Inl DataError \<and>
   map_sum id (map t_timestamp) (fst (getTransactionsByMonth 99 0 (JNum 1) oldStore)) =
     Inr [915200000000] \<and>
   recordsInBounds (monthFirstInstant (localTZA oldStore) 99 0)
     (monthLastInstant (localTZA oldStore) 99 0) (JNum 1) oldStore = []"
proof -
  have h: "fail_in migratedStore = None" "dbInstance migratedStore"
    "migrationDone migratedStore"
    by (simp_all add: migratedStore_def migrationDone_def)
  have "newDate (localTZA migratedStore) 300000 0 1 0 0 0 0 = None"
    by (simp add: newDate_def MakeDay_def MakeDate_def MakeTime_def DayFromYear_def
        monthStart_def TimeClip_def UTC_def msPerDay_def migratedStore_def Let_def)
  then have 1: "fst (getTransactionsByMonth 300000 0 (JNum 1) migratedStore) = Inl DataError"
    using h(1) initDB_ready [OF h]
    by (simp add: getTransactionsByMonth_def await_initDB IDBKeyRange_bound_def reject_def
        Let_def)
  have o: "fail_in oldStore = None" "dbInstance oldStore" "migrationDone oldStore"
    by (simp_all add: oldStore_def migratedStore_def migrationDone_def)
  have tz: "localTZA oldStore = (\<lambda>_. 3600000)"
    by (simp add: oldStore_def migratedStore_def)
  have b99: "monthFirstInstant (\<lambda>_. 3600000) 1999 0 = 915145200000"
    "monthLastInstant (\<lambda>_. 3600000) 1999 0 = 917823599999"
    "monthFirstInstant (\<lambda>_. 3600000) 99 0 < 0" "monthLastInstant (\<lambda>_. 3600000) 99 0 < 0"
    by (simp_all add: monthFirstInstant_def monthLastInstant_def firstDayOfMonth_def
        DayFromYear_def daysInMonth_def UTC_def msPerDay_def)
  have "getTransactionsByMonth 99 0 (JNum 1) oldStore =
     (Inr (sort_key t_timestamp
             (recordsInBounds (monthFirstInstant (localTZA oldStore) (dateYear 99) 0)
                (monthLastInstant (localTZA oldStore) (dateYear 99) 0) (JNum 1)
                (snd (initDB oldStore)))),
      snd (initDB oldStore))"
    by (rule getTransactionsByMonth_ok)
       (simp_all add: o tz dateYear_def b99 maxTimeValue_def msPerDay_def)
  then have 2: "map_sum id (map t_timestamp)
      (fst (getTransactionsByMonth 99 0 (JNum 1) oldStore)) = Inr [915200000000]"
    by (simp add: initDB_ready [OF o] tz dateYear_def b99 recordsInBounds_def)
       (simp add: oldStore_def)
  have 3: "recordsInBounds (monthFirstInstant (localTZA oldStore) 99 0)
     (monthLastInstant (localTZA oldStore) 99 0) (JNum 1) oldStore = []"
    using b99(3,4) by (simp add: tz recordsInBounds_def) (simp add: oldStore_def)
  from 1 2 3 show ?thesis by simp
qed

text \<open>
  \<^bold>\<open>Claim C7, amended.\<close> For every year, read as the \<^verbatim>\<open>Date\<close> constructor reads it
  (0 to 99 mean 1900 to 1999), every month from 0 to 11 whose first and last instant are
  valid time values (at most 8.64e15 ms from the epoch), and every budgetId, with local
  time within a day of UTC and no request failing: \<^verbatim>\<open>getTransactionsByMonth\<close> resolves
  with exactly the transactions whose budgetId is the given one and whose timestamp lies
  between the first instant of the month (day 1, 00:00:00.000 local time) and its last
  instant (last day, 23:59:59.999), both included; they come in timestamp order.
\<close>

theorem byMonth_returns_month_records:
  assumes "fail_in w = None"
    and "0 \<le> month" and "month \<le> 11"
    and "\<forall>t. \<bar>localTZA w t\<bar> \<le> msPerDay"
    and "\<bar>monthFirstInstant (localTZA w) (dateYear year) month\<bar> \<le> maxTimeValue"
    and "\<bar>monthLastInstant (localTZA w) (dateYear year) month\<bar> \<le> maxTimeValue"
  shows "fst (getTransactionsByMonth year month budgetId w) =
     Inr (sort_key t_timestamp
            (filter (\<lambda>r. t_budgetId r = budgetId \<and>
                 monthFirstInstant (localTZA w) (dateYear year) month \<le> t_timestamp r \<and>
                 t_timestamp r \<le> monthLastInstant (localTZA w) (dateYear year) month)
               (transactions (snd (initDB w)))))"
proof -
  have "recordsInBounds lo hi budgetId w' =
      filter (\<lambda>r. t_budgetId r = budgetId \<and> lo \<le> t_timestamp r \<and> t_timestamp r \<le> hi)
        (transactions w')" for lo hi w'
    by (simp add: recordsInBounds_def conj_commute conj_left_commute)
  with getTransactionsByMonth_ok [OF assms, of budgetId] show ?thesis
    by simp
qed

theorem byMonth_returns_month_records_witness:
  "fail_in migratedStore = None \<and> (0 :: int) \<le> 10 \<and> (10 :: int) \<le> 11 \<and>
   (\<forall>t. \<bar>localTZA migratedStore t\<bar> \<le> msPerDay) \<and>
   \<bar>monthFirstInstant (localTZA migratedStore) (dateYear 2023) 10\<bar> \<le> maxTimeValue \<and>
   \<bar>monthLastInstant (localTZA migratedStore) (dateYear 2023) 10\<bar> \<le> maxTimeValue \<and>
   monthFirstInstant (localTZA migratedStore) (dateYear 2023) 10 = 1698793200000 \<and>
   monthLastInstant (localTZA migratedStore) (dateYear 2023) 10 = 1701385199999 \<and>
   map_sum id (map t_id) (fst (getTransactionsByMonth 2023 10 (JNum 1) migratedStore)) =
     Inr [1, 2]"
proof -
  have h: "fail_in migratedStore = None" "dbInstance migratedStore"
    "migrationDone migratedStore"
    by (simp_all add: migratedStore_def migrationDone_def)
  have tz: "localTZA migratedStore = (\<lambda>_. 3600000)"
    by (simp add: migratedStore_def)
  have b: "monthFirstInstant (\<lambda>_. 3600000) 2023 10 = 1698793200000"
    "monthLastInstant (\<lambda>_. 3600000) 2023 10 = 1701385199999"
    by (simp_all add: monthFirstInstant_def monthLastInstant_def firstDayOfMonth_def
        DayFromYear_def daysInMonth_def leapYear_def UTC_def msPerDay_def eval_nat_numeral)
  have hyp: "(0 :: int) \<le> 10" "(10 :: int) \<le> 11"
    "\<forall>t. \<bar>localTZA migratedStore t\<bar> \<le> msPerDay"
    "\<bar>monthFirstInstant (localTZA migratedStore) (dateYear 2023) 10\<bar> \<le> maxTimeValue"
    "\<bar>monthLastInstant (localTZA migratedStore) (dateYear 2023) 10\<bar> \<le> maxTimeValue"
    by (simp_all add: tz b dateYear_def msPerDay_def maxTimeValue_def)
  from byMonth_returns_month_records [OF h(1) hyp, of "JNum 1"] hyp h(1)
  show ?thesis
    by (simp add: initDB_ready [OF h] tz b dateYear_def) (simp add: migratedStore_def)
qed

section \<open>One connection\<close>

lemma openerInv_step:
  assumes "openerInv s" and "e \<noteq> Call \<or> o_inFlight s = []"
  shows "openerInv (step e s)"
proof (cases e)
  case Call
  with assms show ?thesis
    by (auto simp: openerInv_def split: option.splits)
next
  case (OpenSuccess k)
  show ?thesis
  proof (cases "k \<in> set (o_inFlight s)")
    case True
    with assms(1) have "o_inFlight s = [k]" "o_dbInstance s = None"
      by (cases "o_inFlight s"; auto simp: openerInv_def split: option.splits)+
    with assms(1) OpenSuccess show ?thesis
      by (simp add: openerInv_def)
  next
    case False
    with assms(1) OpenSuccess show ?thesis by simp
  qed
next
  case (OpenError k)
  have "length (removeAll k xs) \<le> length xs" for xs :: "nat list"
    by (induction xs) (auto intro: le_SucI)
  moreover from assms(1) have "length (o_inFlight s) \<le> 1"
    by (simp add: openerInv_def)
  ultimately have "length (removeAll k (o_inFlight s)) \<le> 1"
    by (rule order_trans)
  with assms(1) OpenError show ?thesis
    by (auto simp: openerInv_def split: option.splits)
qed

lemma openerInv_runEvents:
  "sequential evs s \<Longrightarrow> openerInv s \<Longrightarrow> openerInv (runEvents evs s)"
  unfolding runEvents_def
  by (induction evs arbitrary: s) (simp_all add: openerInv_step)

text \<open>
  \<^bold>\<open>Claim C5, as stated, fails.\<close> Two calls made before the first open request has
  completed each issue an \<^verbatim>\<open>indexedDB.open\<close>: two connections are opened and the two
  callers receive different handles.
\<close>

theorem initDB_overlapping_calls_counterexample:
  "o_connections (runEvents [Call, Call, OpenSuccess 0, OpenSuccess 1] unopened) = [0, 1] \<and>
   o_received (runEvents [Call, Call, OpenSuccess 0, OpenSuccess 1] unopened) = [0, 1]"
  by (simp add: runEvents_def unopened_def)

text \<open>
  \<^bold>\<open>Claim C5, amended.\<close> For every sequence of calls to \<^verbatim>\<open>initDB\<close> in which no call is
  issued while an open request is in flight, at most one connection is opened and every
  caller that receives a handle receives that connection.
\<close>

theorem initDB_sequential_calls_share_connection:
  assumes "sequential evs unopened"
  shows "length (o_connections (runEvents evs unopened)) \<le> 1 \<and>
         set (o_received (runEvents evs unopened)) \<subseteq> set (o_connections (runEvents evs unopened))"
proof -
  have "openerInv unopened"
    by (simp add: openerInv_def unopened_def)
  with assms have "openerInv (runEvents evs unopened)"
    by (rule openerInv_runEvents)
  then show ?thesis
    by (auto simp: openerInv_def split: option.splits)
qed

theorem initDB_sequential_calls_share_connection_witness:
  "sequential [Call, OpenError 0, Call, OpenSuccess 1, Call, Call] unopened \<and>
   o_connections (runEvents [Call, OpenError 0, Call, OpenSuccess 1, Call, Call] unopened) = [1] \<and>
   o_received (runEvents [Call, OpenError 0, Call, OpenSuccess 1, Call, Call] unopened) = [1, 1, 1]"
proof -
  have s: "sequential [Call, OpenError 0, Call, OpenSuccess 1, Call, Call] unopened"
    by (simp add: unopened_def)
  from initDB_sequential_calls_share_connection [OF s] s show ?thesis
    by (simp add: runEvents_def unopened_def)
qed

end
